theory Spec2Isabelle
  imports Main "HOL-Library.Word" "HOL-Library.AList"
begin

unbundle bit_operations_syntax

section \<open>Errors\<close>

text \<open>
  Go errors are values. \<open>External\<close> stands for an error produced outside the modelled
  functions (the random source, the JSON encoder, the policy-file library, the ledger
  client); the other constructors are the \<open>errors.New\<close> sites of the pattern manager, each
  wrapping the error it formats into its message.
\<close>

datatype error =
    External string
  | OrgNotFound string
  | UnableToMarshal error
  | UnableToCreateEntry error
  | UnableToCreateFiles error
  | UnableToHash error
  | UnableToDeleteFiles error
  | ErrorConverting error
  | ErrorCreatingFile error

section \<open>cutil: agreement ids\<close>

text \<open>
  \<open>encoding/hex\<close> of the standard library: every byte becomes two characters of
  \<open>hextable\<close>, the high nibble first.
\<close>

definition hextable :: string where
  "hextable = ''0123456789abcdef''"

definition hex_byte :: "8 word \<Rightarrow> string" where
  "hex_byte v = [hextable ! unat (drop_bit 4 v), hextable ! unat (v AND 0x0f)]"

fun hex_EncodeToString :: "8 word list \<Rightarrow> string" where
  "hex_EncodeToString [] = []"
| "hex_EncodeToString (v # vs) = hex_byte v @ hex_EncodeToString vs"

text \<open>
  \<open>crypto/rand.Read\<close> fills the whole buffer or returns an error. The random source is
  an input of the model: either the error it returns, or the byte it delivers at each
  position of the buffer.
\<close>

definition rand_Read :: "(error + (nat \<Rightarrow> 8 word)) \<Rightarrow> 8 word list \<Rightarrow> 8 word list \<times> error option" where
  "rand_Read src buf =
     (case src of
        Inl e \<Rightarrow> (buf, Some e)
      | Inr f \<Rightarrow> (map f [0 ..< length buf], None))"

definition GenerateAgreementId :: "(error + (nat \<Rightarrow> 8 word)) \<Rightarrow> string \<times> error option" where
  "GenerateAgreementId src =
     (let bytes = replicate 32 (0 :: 8 word);
          agreementIdString = '''';
          (bytes', err) = rand_Read src bytes;
          agreementIdString' = (if err = None then hex_EncodeToString bytes' else agreementIdString)
      in (agreementIdString', err))"

section \<open>Termination reasons\<close>

text \<open>
  Modelled from the spec: the constants \<open>citizenscientist.AB_CANCEL_*\<close> are declared
  outside the files at hand; their values are those of the reason-code table.
\<close>

definition AB_CANCEL_POLICY_CHANGED :: nat where "AB_CANCEL_POLICY_CHANGED = 200"
definition AB_CANCEL_NOT_FINALIZED_TIMEOUT :: nat where "AB_CANCEL_NOT_FINALIZED_TIMEOUT = 201"
definition AB_CANCEL_NO_DATA_RECEIVED :: nat where "AB_CANCEL_NO_DATA_RECEIVED = 202"
definition AB_CANCEL_NO_REPLY :: nat where "AB_CANCEL_NO_REPLY = 203"
definition AB_USER_REQUESTED :: nat where "AB_USER_REQUESTED = 204"
definition AB_CANCEL_NEGATIVE_REPLY :: nat where "AB_CANCEL_NEGATIVE_REPLY = 205"
definition AB_CANCEL_DISCOVERED :: nat where "AB_CANCEL_DISCOVERED = 206"
definition AB_CANCEL_FORCED_UPGRADE :: nat where "AB_CANCEL_FORCED_UPGRADE = 207"
definition AB_CANCEL_BC_WRITE_FAILED :: nat where "AB_CANCEL_BC_WRITE_FAILED = 208"
definition AB_CANCEL_NODE_HEARTBEAT :: nat where "AB_CANCEL_NODE_HEARTBEAT = 209"
definition AB_CANCEL_AG_MISSING :: nat where "AB_CANCEL_AG_MISSING = 210"

text \<open>
  Modelled from the spec: the string constants \<open>TERM_REASON_*\<close> of package agreementbot
  are declared outside the files at hand. The spec calls them the symbolic form of a reason
  and names each in the first column of the reason-code table; those names stand for the
  strings here.
\<close>

definition TERM_REASON_POLICY_CHANGED :: string where
  "TERM_REASON_POLICY_CHANGED = ''AB_CANCEL_POLICY_CHANGED''"
definition TERM_REASON_NOT_FINALIZED_TIMEOUT :: string where
  "TERM_REASON_NOT_FINALIZED_TIMEOUT = ''AB_CANCEL_NOT_FINALIZED_TIMEOUT''"
definition TERM_REASON_NO_DATA_RECEIVED :: string where
  "TERM_REASON_NO_DATA_RECEIVED = ''AB_CANCEL_NO_DATA_RECEIVED''"
definition TERM_REASON_NO_REPLY :: string where
  "TERM_REASON_NO_REPLY = ''AB_CANCEL_NO_REPLY''"
definition TERM_REASON_USER_REQUESTED :: string where
  "TERM_REASON_USER_REQUESTED = ''AB_USER_REQUESTED''"
definition TERM_REASON_NEGATIVE_REPLY :: string where
  "TERM_REASON_NEGATIVE_REPLY = ''AB_CANCEL_NEGATIVE_REPLY''"
definition TERM_REASON_CANCEL_DISCOVERED :: string where
  "TERM_REASON_CANCEL_DISCOVERED = ''AB_CANCEL_DISCOVERED''"
definition TERM_REASON_CANCEL_FORCED_UPGRADE :: string where
  "TERM_REASON_CANCEL_FORCED_UPGRADE = ''AB_CANCEL_FORCED_UPGRADE''"
definition TERM_REASON_CANCEL_BC_WRITE_FAILED :: string where
  "TERM_REASON_CANCEL_BC_WRITE_FAILED = ''AB_CANCEL_BC_WRITE_FAILED''"
definition TERM_REASON_NODE_HEARTBEAT :: string where
  "TERM_REASON_NODE_HEARTBEAT = ''AB_CANCEL_NODE_HEARTBEAT''"
definition TERM_REASON_AG_MISSING :: string where
  "TERM_REASON_AG_MISSING = ''AB_CANCEL_AG_MISSING''"

text \<open>The closed set of symbolic reasons, in the order of the table.\<close>

definition term_reasons :: "string list" where
  "term_reasons =
     [TERM_REASON_POLICY_CHANGED, TERM_REASON_NOT_FINALIZED_TIMEOUT,
      TERM_REASON_NO_DATA_RECEIVED, TERM_REASON_NO_REPLY, TERM_REASON_USER_REQUESTED,
      TERM_REASON_NEGATIVE_REPLY, TERM_REASON_CANCEL_DISCOVERED,
      TERM_REASON_CANCEL_FORCED_UPGRADE, TERM_REASON_CANCEL_BC_WRITE_FAILED,
      TERM_REASON_NODE_HEARTBEAT, TERM_REASON_AG_MISSING]"

text \<open>
  \<open>CSProtocolHandler.GetTerminationCode\<close>: the switch of the source, case by case. The
  receiver is not read. Go's \<open>uint\<close> is a \<open>nat\<close> here: no arithmetic is done on the codes.
\<close>

definition GetTerminationCode :: "string \<Rightarrow> nat" where
  "GetTerminationCode reason =
     (if reason = TERM_REASON_POLICY_CHANGED then AB_CANCEL_POLICY_CHANGED
      else if reason = TERM_REASON_NOT_FINALIZED_TIMEOUT then AB_CANCEL_NOT_FINALIZED_TIMEOUT
      else if reason = TERM_REASON_NO_DATA_RECEIVED then AB_CANCEL_NO_DATA_RECEIVED
      else if reason = TERM_REASON_NO_REPLY then AB_CANCEL_NO_REPLY
      else if reason = TERM_REASON_USER_REQUESTED then AB_USER_REQUESTED
      else if reason = TERM_REASON_NEGATIVE_REPLY then AB_CANCEL_NEGATIVE_REPLY
      else if reason = TERM_REASON_CANCEL_DISCOVERED then AB_CANCEL_DISCOVERED
      else if reason = TERM_REASON_CANCEL_FORCED_UPGRADE then AB_CANCEL_FORCED_UPGRADE
      else if reason = TERM_REASON_CANCEL_BC_WRITE_FAILED then AB_CANCEL_BC_WRITE_FAILED
      else if reason = TERM_REASON_NODE_HEARTBEAT then AB_CANCEL_NODE_HEARTBEAT
      else if reason = TERM_REASON_AG_MISSING then AB_CANCEL_AG_MISSING
      else 999)"

text \<open>
  Modelled from the spec: \<open>citizenscientist.DecodeReasonCode\<close> is not among the files at
  hand. The spec has a numeric code round-trip to its symbolic form, or to \<open>unknown\<close>.
\<close>

definition DecodeReasonCode :: "nat \<Rightarrow> string" where
  "DecodeReasonCode code =
     (if code = AB_CANCEL_POLICY_CHANGED then TERM_REASON_POLICY_CHANGED
      else if code = AB_CANCEL_NOT_FINALIZED_TIMEOUT then TERM_REASON_NOT_FINALIZED_TIMEOUT
      else if code = AB_CANCEL_NO_DATA_RECEIVED then TERM_REASON_NO_DATA_RECEIVED
      else if code = AB_CANCEL_NO_REPLY then TERM_REASON_NO_REPLY
      else if code = AB_USER_REQUESTED then TERM_REASON_USER_REQUESTED
      else if code = AB_CANCEL_NEGATIVE_REPLY then TERM_REASON_NEGATIVE_REPLY
      else if code = AB_CANCEL_DISCOVERED then TERM_REASON_CANCEL_DISCOVERED
      else if code = AB_CANCEL_FORCED_UPGRADE then TERM_REASON_CANCEL_FORCED_UPGRADE
      else if code = AB_CANCEL_BC_WRITE_FAILED then TERM_REASON_CANCEL_BC_WRITE_FAILED
      else if code = AB_CANCEL_NODE_HEARTBEAT then TERM_REASON_NODE_HEARTBEAT
      else if code = AB_CANCEL_AG_MISSING then TERM_REASON_AG_MISSING
      else ''unknown'')"

text \<open>\<open>CSProtocolHandler.GetTerminationReason\<close>: the decoder applied to the code.\<close>

definition GetTerminationReason :: "nat \<Rightarrow> string" where
  "GetTerminationReason code = DecodeReasonCode code"

section \<open>The consumer protocol handler and its ledger client registry\<close>

text \<open>
  A \<open>*citizenscientist.ProtocolHandler\<close> is \<open>nil\<close> or the identity of a handler object.
  A value of the interface \<open>abstractprotocol.ProtocolHandler\<close> is \<open>nil\<close> or holds such a
  pointer: \<open>return nil\<close> is \<open>None\<close>, returning a pointer is \<open>Some\<close> of it.
\<close>

type_synonym ph_ptr = "nat option"
type_synonym ph_iface = "ph_ptr option"

record BlockchainState =
  ready :: bool
  writable :: bool
  service :: string
  servicePort :: string
  colonusDir :: string
  agreementPH :: ph_ptr

text \<open>
  \<open>bcState\<close> is keyed by org, then type, then name. The only writer of the source
  (\<open>SetBlockchainWritable\<close>) stores the address of a fresh struct, so a stored state is
  never \<open>nil\<close> and is kept by value here.
\<close>

type_synonym name_map = "string \<rightharpoonup> BlockchainState"
type_synonym bc_state = "string \<rightharpoonup> (string \<rightharpoonup> name_map)"

text \<open>The fields of an \<open>Agreement\<close> that the handler reads; \<open>*Agreement\<close> is an option.\<close>

record Agreement =
  CurrentAgreementId :: string
  AgreementProtocolVersion :: int
  BlockchainType :: string
  BlockchainName :: string
  BlockchainOrg :: string

datatype work_type = ASYNC_UPDATE | ASYNC_WRITE

datatype AgreementWork =
    AsyncUpdateAgreement work_type string string
  | AsyncWriteAgreement work_type string string

datatype event_id = NEW_BC_CLIENT

text \<open>
  The message built by \<open>events.NewNewBCContainerMessage\<close>: event id, ledger type, name
  and org, exchange URL, agbot id and token.
\<close>

datatype Message = NewBCContainerMessage event_id string string string string string string

text \<open>
  The handler. \<open>deferredCommands\<close> is the sequence of commands handed to
  \<open>DeferCommand\<close>, \<open>messages\<close> the sequence of values sent on the \<open>messages\<close>
  channel, \<open>recordCalls\<close> the sequence of \<open>RecordAgreement\<close> calls made on ledger
  handlers (handler, proposal, reply, the two empty strings, consumer policy, org), each
  oldest first. The mutex \<open>bcStateLock\<close> has no counterpart: calls are taken one at a time.
\<close>

record ('prop, 'reply, 'pol) CSProtocolHandler =
  ph_name :: string
  agbotId :: string
  token :: string
  ExchangeURL :: string
  deferredCommands :: "AgreementWork list"
  messages :: "Message list"
  recordCalls :: "(ph_ptr \<times> 'prop \<times> 'reply \<times> string \<times> string \<times> 'pol \<times> string) list"
  genericAgreementPH :: ph_ptr
  bcState :: bc_state

text \<open>
  \<open>getBCNameMap\<close> creates the missing levels of the directory as empty maps and returns
  the name map of the org and type, together with the directory so extended.
\<close>

definition getBCNameMap :: "string \<Rightarrow> string \<Rightarrow> bc_state \<Rightarrow> name_map \<times> bc_state" where
  "getBCNameMap org typeName bc =
     (let (orgMap, bc1) =
            (case bc org of
               None \<Rightarrow> (Map.empty, bc(org \<mapsto> Map.empty))
             | Some m \<Rightarrow> (m, bc));
          (nameMap, orgMap1) =
            (case orgMap typeName of
               None \<Rightarrow> (Map.empty, orgMap(typeName \<mapsto> Map.empty))
             | Some nm \<Rightarrow> (nm, orgMap))
      in (nameMap, bc1(org \<mapsto> orgMap1)))"

definition AgreementProtocolHandler ::
  "string \<Rightarrow> string \<Rightarrow> string \<Rightarrow> ('a, 'b, 'c) CSProtocolHandler \<Rightarrow>
   ph_iface \<times> ('a, 'b, 'c) CSProtocolHandler" where
  "AgreementProtocolHandler typeName name org c =
     (if typeName = '''' \<and> name = '''' \<and> org = '''' then (Some (genericAgreementPH c), c)
      else
        (let (nameMap, bc) = getBCNameMap org typeName (bcState c);
             c1 = c\<lparr>bcState := bc\<rparr>
         in case nameMap name of
              Some namedBC \<Rightarrow> if ready namedBC then (Some (agreementPH namedBC), c1) else (None, c1)
            | None \<Rightarrow> (None, c1)))"

definition IsBlockchainWritable ::
  "string \<Rightarrow> string \<Rightarrow> string \<Rightarrow> ('a, 'b, 'c) CSProtocolHandler \<Rightarrow>
   bool \<times> ('a, 'b, 'c) CSProtocolHandler" where
  "IsBlockchainWritable typeName name org c =
     (let (nameMap, bc) = getBCNameMap org typeName (bcState c);
          c1 = c\<lparr>bcState := bc\<rparr>
      in case nameMap name of
           Some namedBC \<Rightarrow> if ready namedBC \<and> writable namedBC then (True, c1) else (False, c1)
         | None \<Rightarrow> (False, c1))"

definition IsBlockchainReady ::
  "string \<Rightarrow> string \<Rightarrow> string \<Rightarrow> ('a, 'b, 'c) CSProtocolHandler \<Rightarrow>
   bool \<times> ('a, 'b, 'c) CSProtocolHandler" where
  "IsBlockchainReady typeName name org c =
     (let (nameMap, bc) = getBCNameMap org typeName (bcState c);
          c1 = c\<lparr>bcState := bc\<rparr>
      in case nameMap name of
           Some namedBC \<Rightarrow> if ready namedBC then (True, c1) else (False, c1)
         | None \<Rightarrow> (False, c1))"

definition GetKnownBlockchain :: "Agreement \<Rightarrow> string \<times> string \<times> string" where
  "GetKnownBlockchain ag = (BlockchainType ag, BlockchainName ag, BlockchainOrg ag)"

definition CanCancelNow ::
  "Agreement option \<Rightarrow> ('a, 'b, 'c) CSProtocolHandler \<Rightarrow> bool \<times> ('a, 'b, 'c) CSProtocolHandler" where
  "CanCancelNow agp c =
     (case agp of
        None \<Rightarrow> (True, c)
      | Some ag \<Rightarrow>
          (let (bcType, bcName, bcOrg) = GetKnownBlockchain ag;
               (nameMap, bc) = getBCNameMap bcOrg bcType (bcState c);
               c1 = c\<lparr>bcState := bc\<rparr>
           in case nameMap bcName of
                None \<Rightarrow> (False, c1)
              | Some namedBC \<Rightarrow> if \<not> ready namedBC then (False, c1) else (True, c1)))"

definition getColonusDir ::
  "Agreement option \<Rightarrow> ('a, 'b, 'c) CSProtocolHandler \<Rightarrow> string \<times> ('a, 'b, 'c) CSProtocolHandler" where
  "getColonusDir agp c =
     (case agp of
        None \<Rightarrow> ('''', c)
      | Some ag \<Rightarrow>
          (let (bcType, bcName, bcOrg) = GetKnownBlockchain ag;
               (nameMap, bc) = getBCNameMap bcOrg bcType (bcState c);
               c1 = c\<lparr>bcState := bc\<rparr>
           in case nameMap bcName of
                None \<Rightarrow> ('''', c1)
              | Some namedBC \<Rightarrow> if \<not> ready namedBC then ('''', c1) else (colonusDir namedBC, c1)))"

text \<open>
  \<open>DeferCommand\<close> belongs to the embedded base handler, declared outside these files; a
  call is kept as the command handed over.
\<close>

definition DeferCommand ::
  "AgreementWork \<Rightarrow> ('a, 'b, 'c) CSProtocolHandler \<Rightarrow> ('a, 'b, 'c) CSProtocolHandler" where
  "DeferCommand cmd c = c\<lparr>deferredCommands := deferredCommands c @ [cmd]\<rparr>"

text \<open>
  \<open>PostReply\<close>. Two collaborators are inputs: \<open>findAgreement\<close> is the outcome of
  \<open>FindSingleAgreementByAgreementId\<close> for an agreement id and a protocol name (an error,
  no agreement, or the agreement), and \<open>recordAgreement\<close> is the error, if any, that
  \<open>RecordAgreement\<close> returns on a handler. The branches that only log return \<open>nil\<close>
  with the handler as the registry query left it.
\<close>

definition PostReply ::
  "(string \<Rightarrow> string \<Rightarrow> error + Agreement option) \<Rightarrow>
   (ph_ptr \<Rightarrow> 'a \<Rightarrow> 'b \<Rightarrow> string \<Rightarrow> string \<Rightarrow> 'c \<Rightarrow> string \<Rightarrow> error option) \<Rightarrow>
   string \<Rightarrow> 'a \<Rightarrow> 'b \<Rightarrow> 'c \<Rightarrow> string \<Rightarrow> string \<Rightarrow> ('a, 'b, 'c) CSProtocolHandler \<Rightarrow>
   error option \<times> ('a, 'b, 'c) CSProtocolHandler" where
  "PostReply findAgreement recordAgreement agreementId proposal reply consumerPolicy org workerId c =
     (case findAgreement agreementId (ph_name c) of
        Inl err \<Rightarrow> (None, c)
      | Inr None \<Rightarrow> (None, c)
      | Inr (Some agreement) \<Rightarrow>
          if AgreementProtocolVersion agreement < 2 then
            (let (aph, c1) = AgreementProtocolHandler (BlockchainType agreement)
                               (BlockchainName agreement) (BlockchainOrg agreement) c
             in case aph of
                  None \<Rightarrow> (None, c1)
                | Some h \<Rightarrow>
                    (let c2 = c1\<lparr>recordCalls := recordCalls c1 @
                                 [(h, proposal, reply, '''', '''', consumerPolicy, org)]\<rparr>
                     in case recordAgreement h proposal reply '''' '''' consumerPolicy org of
                          Some err \<Rightarrow> (Some err, c2)
                        | None \<Rightarrow> (None, c2)))
          else if AgreementProtocolVersion agreement = 2 then
            (let (w, c1) = IsBlockchainWritable (BlockchainType agreement)
                             (BlockchainName agreement) (BlockchainOrg agreement) c
             in if w then
                  (let c2 = DeferCommand (AsyncUpdateAgreement ASYNC_UPDATE
                                            (CurrentAgreementId agreement) (ph_name c1)) c1;
                       c3 = DeferCommand (AsyncWriteAgreement ASYNC_WRITE
                                            (CurrentAgreementId agreement) (ph_name c2)) c2
                   in (None, c3))
                else
                  (None, c1\<lparr>messages := messages c1 @
                     [NewBCContainerMessage NEW_BC_CLIENT (BlockchainType agreement)
                        (BlockchainName agreement) (BlockchainOrg agreement)
                        (ExchangeURL c1) (agbotId c1) (token c1)]\<rparr>))
          else (None, c))"

text \<open>
  The entry, if any, that the directory holds for a ledger instance: the notion the claims
  about the registry are stated with.
\<close>

definition bcEntry :: "bc_state \<Rightarrow> string \<Rightarrow> string \<Rightarrow> string \<Rightarrow> BlockchainState option" where
  "bcEntry bc org typeName name =
     (case bc org of
        None \<Rightarrow> None
      | Some orgMap \<Rightarrow> (case orgMap typeName of None \<Rightarrow> None | Some nameMap \<Rightarrow> nameMap name))"

text \<open>Whether the directory holds a ready entry for a ledger instance.\<close>

definition entryReady :: "bc_state \<Rightarrow> string \<Rightarrow> string \<Rightarrow> string \<Rightarrow> bool" where
  "entryReady bc org typeName name =
     (case bcEntry bc org typeName name of None \<Rightarrow> False | Some e \<Rightarrow> ready e)"

subsection \<open>A concrete handler\<close>

text \<open>
  A registry with one org and one ledger type: instance \<open>bc1\<close> is ready and writable,
  instance \<open>bc2\<close> is known but not ready. The theorems below are instantiated on it.
\<close>

definition bc_acme :: bc_state where
  "bc_acme =
     [''acme'' \<mapsto> [''ethereum'' \<mapsto>
        [''bc1'' \<mapsto> \<lparr>ready = True, writable = True, service = ''eth1'', servicePort = ''8545'',
                      colonusDir = ''/colonus/bc1'', agreementPH = Some 1\<rparr>,
         ''bc2'' \<mapsto> \<lparr>ready = False, writable = False, service = ''eth2'', servicePort = ''8546'',
                      colonusDir = ''/colonus/bc2'', agreementPH = Some 2\<rparr>]]]"

definition handler_acme :: "(unit, unit, unit) CSProtocolHandler" where
  "handler_acme =
     \<lparr>ph_name = ''Citizen Scientist'', agbotId = ''agbot1'', token = ''secret'',
      ExchangeURL = ''https://exchange/v1/'', deferredCommands = [], messages = [],
      recordCalls = [], genericAgreementPH = Some 0, bcState = bc_acme\<rparr>"

definition agreement_v2 :: Agreement where
  "agreement_v2 =
     \<lparr>CurrentAgreementId = ''a2'', AgreementProtocolVersion = 2, BlockchainType = ''ethereum'',
      BlockchainName = ''bc1'', BlockchainOrg = ''acme''\<rparr>"

definition agreement_v1 :: Agreement where
  "agreement_v1 =
     \<lparr>CurrentAgreementId = ''a1'', AgreementProtocolVersion = 1, BlockchainType = ''ethereum'',
      BlockchainName = ''bc2'', BlockchainOrg = ''acme''\<rparr>"

definition find_v2 :: "string \<Rightarrow> string \<Rightarrow> error + Agreement option" where
  "find_v2 agreementId protocol = Inr (Some agreement_v2)"

definition find_v1 :: "string \<Rightarrow> string \<Rightarrow> error + Agreement option" where
  "find_v1 agreementId protocol = Inr (Some agreement_v1)"

definition record_ok ::
  "ph_ptr \<Rightarrow> unit \<Rightarrow> unit \<Rightarrow> string \<Rightarrow> string \<Rightarrow> unit \<Rightarrow> string \<Rightarrow> error option" where
  "record_ok h proposal reply a b pol org = None"

section \<open>The pattern manager\<close>

text \<open>
  An \<open>exchange.Pattern\<close> is a value of the type parameter \<open>'p\<close>, a generated policy of
  \<open>'pol\<close>. A \<open>*exchange.Pattern\<close> is \<open>nil\<close> or the address of a pattern variable; the
  variables live in \<open>patternVars\<close>. The address matters: \<open>UpdatePatternPolicies\<close> hands
  \<open>&pattern\<close>, the address of its range variable, to every entry it creates or updates,
  and a range variable of this code base (Go before 1.22) is one variable for the whole
  loop, assigned anew at each iteration.
\<close>

type_synonym bytes = "8 word list"

record PatternEntry =
  Pattern :: "nat option"
  Updated :: "64 word"
  Hash :: bytes
  PolicyFileNames :: "string list"

text \<open>
  A Go map is an association list with the keys in the order in which \<open>range\<close> visits
  them; a value of \<open>OrgPatterns\<close> is \<open>nil\<close> (\<open>None\<close>) or an entry. A
  \<open>*PatternEntry\<close> is referenced from its slot of the map only, so an entry is kept by
  value in the slot: a function that changes an entry through the pointer takes the entry
  and returns it changed, and its caller stores it back at once, error or not.
\<close>

type_synonym org_map = "(string \<times> PatternEntry option) list"

record ServedPattern =
  served_Org :: string
  served_Pattern :: string

text \<open>The calls made on the policy-file library, and the errors written to the log.\<close>

datatype fs_call =
    CreatePolicyFileCall string string string
  | DeletePolicyFileCall string
  | DeletePolicyFilesForOrgCall string string bool
  | DeletePolicyFilesForPatternCall string string string

datatype log_entry =
    ErrorDeletingOrg string error
  | ErrorDeletingPattern string string error

text \<open>
  The state: the manager's map, the pattern variables and the next free address, the
  world outside (file system and clock, of the type parameter \<open>'w\<close>), the calls made on
  the policy-file library so far and the error log, both oldest first.
\<close>

record ('p, 'w) pm_state =
  OrgPatterns :: "(string \<times> org_map) list"
  patternVars :: "nat \<rightharpoonup> 'p"
  nextVar :: nat
  world :: 'w
  fsCalls :: "fs_call list"
  errorLog :: "log_entry list"

text \<open>
  The collaborators outside the files at hand, as inputs: the JSON encoder and SHA3-256,
  \<open>exchange.GetId\<close> and \<open>exchange.ConvertToPolicies\<close>, the name in a policy's header,
  the four functions of the policy-file library (each acts on the world and may fail) and
  the clock (\<open>uint64(time.Now().Unix())\<close>).
\<close>

record ('p, 'pol, 'w) env =
  json_Marshal :: "'p option \<Rightarrow> error + bytes"
  sha3_Sum256 :: "bytes \<Rightarrow> bytes"
  exchange_GetId :: "string \<Rightarrow> string"
  ConvertToPolicies :: "string \<Rightarrow> 'p option \<Rightarrow> error + 'pol list"
  Header_Name :: "'pol \<Rightarrow> string"
  CreatePolicyFile :: "string \<Rightarrow> string \<Rightarrow> string \<Rightarrow> 'pol \<Rightarrow> 'w \<Rightarrow> (error + string) \<times> 'w"
  DeletePolicyFile :: "string \<Rightarrow> 'w \<Rightarrow> error option \<times> 'w"
  DeletePolicyFilesForOrg :: "string \<Rightarrow> string \<Rightarrow> bool \<Rightarrow> 'w \<Rightarrow> error option \<times> 'w"
  DeletePolicyFilesForPattern :: "string \<Rightarrow> string \<Rightarrow> string \<Rightarrow> 'w \<Rightarrow> error option \<times> 'w"
  time_Now_Unix :: "'w \<Rightarrow> 64 word \<times> 'w"

text \<open>The pattern a pointer refers to; \<open>nil\<close> refers to none.\<close>

definition deref :: "nat option \<Rightarrow> ('p, 'w) pm_state \<Rightarrow> 'p option" where
  "deref p s = (case p of None \<Rightarrow> None | Some a \<Rightarrow> patternVars s a)"

definition hashPattern :: "('p, 'pol, 'w) env \<Rightarrow> nat option \<Rightarrow> ('p, 'w) pm_state \<Rightarrow> error + bytes" where
  "hashPattern env p s =
     (case json_Marshal env (deref p s) of
        Inl err \<Rightarrow> Inl (UnableToMarshal err)
      | Inr ps \<Rightarrow> Inr (sha3_Sum256 env ps))"

definition NewPatternEntry ::
  "('p, 'pol, 'w) env \<Rightarrow> nat option \<Rightarrow> ('p, 'w) pm_state \<Rightarrow>
   (error + PatternEntry) \<times> ('p, 'w) pm_state" where
  "NewPatternEntry env p s =
     (let (t, w1) = time_Now_Unix env (world s);
          s1 = s\<lparr>world := w1\<rparr>
      in case hashPattern env p s1 of
           Inl err \<Rightarrow> (Inl err, s1)
         | Inr hash \<Rightarrow>
             (Inr \<lparr>Pattern = p, Updated = t, Hash = hash, PolicyFileNames = []\<rparr>, s1))"

definition AddPolicyFileName :: "PatternEntry \<Rightarrow> string \<Rightarrow> PatternEntry" where
  "AddPolicyFileName pe fileName = pe\<lparr>PolicyFileNames := PolicyFileNames pe @ [fileName]\<rparr>"

fun DeleteAllPolicyFiles_loop ::
  "('p, 'pol, 'w) env \<Rightarrow> string list \<Rightarrow> ('p, 'w) pm_state \<Rightarrow> error option \<times> ('p, 'w) pm_state" where
  "DeleteAllPolicyFiles_loop env [] s = (None, s)"
| "DeleteAllPolicyFiles_loop env (fileName # rest) s =
     (let (r, w1) = DeletePolicyFile env fileName (world s);
          s1 = s\<lparr>world := w1, fsCalls := fsCalls s @ [DeletePolicyFileCall fileName]\<rparr>
      in case r of
           Some err \<Rightarrow> (Some err, s1)
         | None \<Rightarrow> DeleteAllPolicyFiles_loop env rest s1)"

definition DeleteAllPolicyFiles ::
  "('p, 'pol, 'w) env \<Rightarrow> PatternEntry \<Rightarrow> string \<Rightarrow> string \<Rightarrow> ('p, 'w) pm_state \<Rightarrow>
   error option \<times> ('p, 'w) pm_state" where
  "DeleteAllPolicyFiles env pe policyPath org s =
     DeleteAllPolicyFiles_loop env (PolicyFileNames pe) s"

definition UpdateEntry ::
  "('p, 'pol, 'w) env \<Rightarrow> PatternEntry \<Rightarrow> nat option \<Rightarrow> bytes \<Rightarrow> ('p, 'w) pm_state \<Rightarrow>
   PatternEntry \<times> ('p, 'w) pm_state" where
  "UpdateEntry env pe pattern newHash s =
     (let (t, w1) = time_Now_Unix env (world s)
      in (pe\<lparr>Pattern := pattern, Hash := newHash, Updated := t, PolicyFileNames := []\<rparr>,
          s\<lparr>world := w1\<rparr>))"

definition hasOrg :: "('p, 'w) pm_state \<Rightarrow> string \<Rightarrow> bool" where
  "hasOrg s org = (map_of (OrgPatterns s) org \<noteq> None)"

text \<open>\<open>pm.OrgPatterns[org]\<close>: a missing org reads as the nil map, which has no keys.\<close>

definition orgMapOf :: "('p, 'w) pm_state \<Rightarrow> string \<Rightarrow> org_map" where
  "orgMapOf s org = (case map_of (OrgPatterns s) org of None \<Rightarrow> [] | Some m \<Rightarrow> m)"

definition hasPattern :: "('p, 'w) pm_state \<Rightarrow> string \<Rightarrow> string \<Rightarrow> bool" where
  "hasPattern s org pattern = (hasOrg s org \<and> map_of (orgMapOf s org) pattern \<noteq> None)"

text \<open>\<open>pm.OrgPatterns[org][pattern]\<close>: a missing key reads as \<open>nil\<close>.\<close>

definition getEntry :: "('p, 'w) pm_state \<Rightarrow> string \<Rightarrow> string \<Rightarrow> PatternEntry option" where
  "getEntry s org pattern =
     (case map_of (orgMapOf s org) pattern of None \<Rightarrow> None | Some pe \<Rightarrow> pe)"

text \<open>
  \<open>pm.OrgPatterns[org][pattern] = pe\<close>. The source assigns under the guard
  \<open>hasPattern\<close>, so the map of the org exists; for a missing org, where Go would panic on
  the nil map, the manager is left as it is.
\<close>

definition setEntry ::
  "string \<Rightarrow> string \<Rightarrow> PatternEntry option \<Rightarrow> ('p, 'w) pm_state \<Rightarrow> ('p, 'w) pm_state" where
  "setEntry org pattern pe s =
     s\<lparr>OrgPatterns := AList.map_entry org (AList.update pattern pe) (OrgPatterns s)\<rparr>"

text \<open>
  \<open>deleteOrg\<close> and \<open>deletePattern\<close>: the library call is made first; its error, if
  any, goes to the log; then the key is removed from the manager. Both return \<open>nil\<close>;
  the result is kept, since the callers test it.
\<close>

definition deleteOrg ::
  "('p, 'pol, 'w) env \<Rightarrow> string \<Rightarrow> string \<Rightarrow> ('p, 'w) pm_state \<Rightarrow>
   error option \<times> ('p, 'w) pm_state" where
  "deleteOrg env policyPath org s =
     (let (r, w1) = DeletePolicyFilesForOrg env policyPath org True (world s);
          s1 = s\<lparr>world := w1,
                 fsCalls := fsCalls s @ [DeletePolicyFilesForOrgCall policyPath org True]\<rparr>;
          s2 = (case r of
                  Some err \<Rightarrow> s1\<lparr>errorLog := errorLog s1 @ [ErrorDeletingOrg org err]\<rparr>
                | None \<Rightarrow> s1);
          s3 = (if hasOrg s2 org
                then s2\<lparr>OrgPatterns := AList.delete org (OrgPatterns s2)\<rparr>
                else s2)
      in (None, s3))"

definition deletePattern ::
  "('p, 'pol, 'w) env \<Rightarrow> string \<Rightarrow> string \<Rightarrow> string \<Rightarrow> ('p, 'w) pm_state \<Rightarrow>
   error option \<times> ('p, 'w) pm_state" where
  "deletePattern env policyPath org pattern s =
     (let (r, w1) = DeletePolicyFilesForPattern env policyPath org pattern (world s);
          s1 = s\<lparr>world := w1,
                 fsCalls := fsCalls s @ [DeletePolicyFilesForPatternCall policyPath org pattern]\<rparr>;
          s2 = (case r of
                  Some err \<Rightarrow> s1\<lparr>errorLog := errorLog s1 @ [ErrorDeletingPattern org pattern err]\<rparr>
                | None \<Rightarrow> s1);
          s3 = (if hasOrg s2 org
                then (if map_of (orgMapOf s2 org) pattern \<noteq> None
                      then s2\<lparr>OrgPatterns :=
                              AList.map_entry org (AList.delete pattern) (OrgPatterns s2)\<rparr>
                      else s2)
                else s2)
      in (None, s3))"

subsection \<open>SetCurrentPatterns\<close>

text \<open>The first loop: the new map, built from the served patterns.\<close>

fun SetCurrentPatterns_served ::
  "('p, 'w) pm_state \<Rightarrow> (string \<times> ServedPattern) list \<Rightarrow> (string \<times> org_map) list \<Rightarrow>
   (string \<times> org_map) list" where
  "SetCurrentPatterns_served s [] newMap = newMap"
| "SetCurrentPatterns_served s ((k, served) # rest) newMap =
     (let newMap1 = (if map_of newMap (served_Org served) = None
                     then AList.update (served_Org served) [] newMap
                     else newMap);
          newMap2 = (if hasPattern s (served_Org served) (served_Pattern served)
                     then AList.map_entry (served_Org served)
                            (AList.update (served_Pattern served)
                               (getEntry s (served_Org served) (served_Pattern served))) newMap1
                     else AList.map_entry (served_Org served)
                            (AList.update (served_Pattern served) None) newMap1)
      in SetCurrentPatterns_served s rest newMap2)"

text \<open>The inner loop of the second loop, over the patterns of an org that is still served.\<close>

fun SetCurrentPatterns_patterns ::
  "('p, 'pol, 'w) env \<Rightarrow> string \<Rightarrow> (string \<times> org_map) list \<Rightarrow> string \<Rightarrow> string list \<Rightarrow>
   ('p, 'w) pm_state \<Rightarrow> error option \<times> ('p, 'w) pm_state" where
  "SetCurrentPatterns_patterns env policyPath newMap org [] s = (None, s)"
| "SetCurrentPatterns_patterns env policyPath newMap org (pattern # rest) s =
     (if map_of (case map_of newMap org of None \<Rightarrow> [] | Some m \<Rightarrow> m) pattern = None
      then (case deletePattern env policyPath org pattern s of
              (Some err, s1) \<Rightarrow> (Some err, s1)
            | (None, s1) \<Rightarrow> SetCurrentPatterns_patterns env policyPath newMap org rest s1)
      else SetCurrentPatterns_patterns env policyPath newMap org rest s)"

text \<open>The second loop, over the orgs of the manager as they were when the loop began.\<close>

fun SetCurrentPatterns_orgs ::
  "('p, 'pol, 'w) env \<Rightarrow> string \<Rightarrow> (string \<times> org_map) list \<Rightarrow> (string \<times> org_map) list \<Rightarrow>
   ('p, 'w) pm_state \<Rightarrow> error option \<times> ('p, 'w) pm_state" where
  "SetCurrentPatterns_orgs env policyPath newMap [] s = (None, s)"
| "SetCurrentPatterns_orgs env policyPath newMap ((org, orgMap) # rest) s =
     (if map_of newMap org = None
      then (case deleteOrg env policyPath org s of
              (Some err, s1) \<Rightarrow> (Some err, s1)
            | (None, s1) \<Rightarrow> SetCurrentPatterns_orgs env policyPath newMap rest s1)
      else (case SetCurrentPatterns_patterns env policyPath newMap org (map fst orgMap) s of
              (Some err, s1) \<Rightarrow> (Some err, s1)
            | (None, s1) \<Rightarrow> SetCurrentPatterns_orgs env policyPath newMap rest s1))"

definition SetCurrentPatterns ::
  "('p, 'pol, 'w) env \<Rightarrow> (string \<times> ServedPattern) list \<Rightarrow> string \<Rightarrow> ('p, 'w) pm_state \<Rightarrow>
   error option \<times> ('p, 'w) pm_state" where
  "SetCurrentPatterns env servedPatterns policyPath s =
     (if length (OrgPatterns s) = 0 \<and> length servedPatterns = 0 then (None, s)
      else
        (let newMap = SetCurrentPatterns_served s servedPatterns []
         in case SetCurrentPatterns_orgs env policyPath newMap (OrgPatterns s) s of
              (Some err, s1) \<Rightarrow> (Some err, s1)
            | (None, s1) \<Rightarrow> (None, s1\<lparr>OrgPatterns := newMap\<rparr>)))"

subsection \<open>UpdatePatternPolicies\<close>

fun createPolicyFiles_loop ::
  "('p, 'pol, 'w) env \<Rightarrow> string \<Rightarrow> string \<Rightarrow> 'pol list \<Rightarrow> PatternEntry \<Rightarrow> ('p, 'w) pm_state \<Rightarrow>
   error option \<times> PatternEntry \<times> ('p, 'w) pm_state" where
  "createPolicyFiles_loop env policyPath org [] pe s = (None, pe, s)"
| "createPolicyFiles_loop env policyPath org (pol # rest) pe s =
     (let (r, w1) = CreatePolicyFile env policyPath org (Header_Name env pol) pol (world s);
          s1 = s\<lparr>world := w1,
                 fsCalls := fsCalls s @
                   [CreatePolicyFileCall policyPath org (Header_Name env pol)]\<rparr>
      in case r of
           Inl err \<Rightarrow> (Some (ErrorCreatingFile err), pe, s1)
         | Inr fileName \<Rightarrow>
             createPolicyFiles_loop env policyPath org rest (AddPolicyFileName pe fileName) s1)"

definition createPolicyFiles ::
  "('p, 'pol, 'w) env \<Rightarrow> PatternEntry \<Rightarrow> string \<Rightarrow> nat option \<Rightarrow> string \<Rightarrow> string \<Rightarrow>
   ('p, 'w) pm_state \<Rightarrow> error option \<times> PatternEntry \<times> ('p, 'w) pm_state" where
  "createPolicyFiles env pe patternId pattern policyPath org s =
     (case ConvertToPolicies env patternId (deref pattern s) of
        Inl err \<Rightarrow> (Some (ErrorConverting err), pe, s)
      | Inr policies \<Rightarrow> createPolicyFiles_loop env policyPath org policies pe s)"

text \<open>The search for a pattern of the manager among the defined patterns, with its break.\<close>

fun UpdatePatternPolicies_found ::
  "('p, 'pol, 'w) env \<Rightarrow> string \<Rightarrow> (string \<times> 'p) list \<Rightarrow> bool" where
  "UpdatePatternPolicies_found env pattern [] = False"
| "UpdatePatternPolicies_found env pattern ((patternId, p) # rest) =
     (if exchange_GetId env patternId = pattern then True
      else UpdatePatternPolicies_found env pattern rest)"

text \<open>The first loop, over the patterns of the org as they were when the loop began.\<close>

fun UpdatePatternPolicies_delete ::
  "('p, 'pol, 'w) env \<Rightarrow> string \<Rightarrow> (string \<times> 'p) list \<Rightarrow> string \<Rightarrow> string list \<Rightarrow>
   ('p, 'w) pm_state \<Rightarrow> error option \<times> ('p, 'w) pm_state" where
  "UpdatePatternPolicies_delete env org definedPatterns policyPath [] s = (None, s)"
| "UpdatePatternPolicies_delete env org definedPatterns policyPath (pattern # rest) s =
     (if \<not> UpdatePatternPolicies_found env pattern definedPatterns
      then (case deletePattern env policyPath org pattern s of
              (Some err, s1) \<Rightarrow> (Some err, s1)
            | (None, s1) \<Rightarrow> UpdatePatternPolicies_delete env org definedPatterns policyPath rest s1)
      else UpdatePatternPolicies_delete env org definedPatterns policyPath rest s)"

text \<open>
  One iteration of the second loop: the error the function returns with, or \<open>None\<close> to
  go on with the next pattern. \<open>a\<close> is the address of the range variable \<open>pattern\<close>;
  the iteration assigns the current pattern to it before the body runs.
\<close>

definition UpdatePatternPolicies_body ::
  "('p, 'pol, 'w) env \<Rightarrow> string \<Rightarrow> string \<Rightarrow> nat \<Rightarrow> string \<Rightarrow> 'p \<Rightarrow>
   ('p, 'w) pm_state \<Rightarrow> error option \<times> ('p, 'w) pm_state" where
  "UpdatePatternPolicies_body env org policyPath a patternId pattern s =
     (let s0 = s\<lparr>patternVars := (patternVars s)(a \<mapsto> pattern)\<rparr>
      in if hasPattern s0 org (exchange_GetId env patternId) then
           (case getEntry s0 org (exchange_GetId env patternId) of
              None \<Rightarrow>
                (case NewPatternEntry env (Some a) s0 of
                   (Inl err, s1) \<Rightarrow> (Some (UnableToCreateEntry err), s1)
                 | (Inr newPE, s1) \<Rightarrow>
                     (let s2 = setEntry org (exchange_GetId env patternId) (Some newPE) s1;
                          (r, newPE1, s3) =
                             createPolicyFiles env newPE patternId (Some a) policyPath org s2;
                          s4 = setEntry org (exchange_GetId env patternId) (Some newPE1) s3
                      in case r of
                           Some err \<Rightarrow> (Some (UnableToCreateFiles err), s4)
                         | None \<Rightarrow> (None, s4)))
            | Some pe \<Rightarrow>
                (case hashPattern env (Some a) s0 of
                   Inl err \<Rightarrow> (Some (UnableToHash err), s0)
                 | Inr newHash \<Rightarrow>
                     if Hash pe \<noteq> newHash then
                       (case DeleteAllPolicyFiles env pe policyPath org s0 of
                          (Some err, s1) \<Rightarrow> (Some (UnableToDeleteFiles err), s1)
                        | (None, s1) \<Rightarrow>
                            (let (pe1, s2) = UpdateEntry env pe (Some a) newHash s1;
                                 s3 = setEntry org (exchange_GetId env patternId) (Some pe1) s2;
                                 (r, pe2, s4) =
                                    createPolicyFiles env pe1 patternId (Some a) policyPath org s3;
                                 s5 = setEntry org (exchange_GetId env patternId) (Some pe2) s4
                             in case r of
                                  Some err \<Rightarrow> (Some (UnableToCreateFiles err), s5)
                                | None \<Rightarrow> (None, s5)))
                     else (None, s0)))
         else (None, s0))"

text \<open>The second loop: it ends at the first iteration that returns an error.\<close>

fun UpdatePatternPolicies_update ::
  "('p, 'pol, 'w) env \<Rightarrow> string \<Rightarrow> string \<Rightarrow> nat \<Rightarrow> (string \<times> 'p) list \<Rightarrow>
   ('p, 'w) pm_state \<Rightarrow> error option \<times> ('p, 'w) pm_state" where
  "UpdatePatternPolicies_update env org policyPath a [] s = (None, s)"
| "UpdatePatternPolicies_update env org policyPath a ((patternId, pattern) # rest) s =
     (case UpdatePatternPolicies_body env org policyPath a patternId pattern s of
        (Some err, s1) \<Rightarrow> (Some err, s1)
      | (None, s1) \<Rightarrow> UpdatePatternPolicies_update env org policyPath a rest s1)"

text \<open>
  \<open>UpdatePatternPolicies\<close>. A defined-pattern map that is \<open>nil\<close> or empty is the empty
  list. The range variable of the second loop gets a fresh address when that loop begins.
\<close>

definition UpdatePatternPolicies ::
  "('p, 'pol, 'w) env \<Rightarrow> string \<Rightarrow> (string \<times> 'p) list \<Rightarrow> string \<Rightarrow> ('p, 'w) pm_state \<Rightarrow>
   error option \<times> ('p, 'w) pm_state" where
  "UpdatePatternPolicies env org definedPatterns policyPath s =
     (if \<not> hasOrg s org then (Some (OrgNotFound org), s)
      else if length definedPatterns = 0 then deleteOrg env policyPath org s
      else
        (case UpdatePatternPolicies_delete env org definedPatterns policyPath
                (map fst (orgMapOf s org)) s of
           (Some err, s1) \<Rightarrow> (Some err, s1)
         | (None, s1) \<Rightarrow>
             UpdatePatternPolicies_update env org policyPath (nextVar s1) definedPatterns
               (s1\<lparr>nextVar := Suc (nextVar s1)\<rparr>)))"

text \<open>
  What \<open>hashPattern\<close> yields for a pointer to a variable that holds the pattern \<open>p\<close>:
  the notion the claims about hashes are stated with.
\<close>

definition hashOf :: "('p, 'pol, 'w) env \<Rightarrow> 'p \<Rightarrow> error + bytes" where
  "hashOf env p =
     (case json_Marshal env (Some p) of
        Inl err \<Rightarrow> Inl (UnableToMarshal err)
      | Inr ps \<Rightarrow> Inr (sha3_Sum256 env ps))"

text \<open>
  The claim that a pass finds the stored hashes current: every defined pattern that the
  manager serves in the org has an entry, and the hash recomputed for the pattern is the
  hash stored in the entry.
\<close>

definition hashes_current ::
  "('p, 'pol, 'w) env \<Rightarrow> string \<Rightarrow> (string \<times> 'p) list \<Rightarrow> ('p, 'w) pm_state \<Rightarrow> bool" where
  "hashes_current env org definedPatterns s =
     (\<forall>(patternId, p) \<in> set definedPatterns.
        hasPattern s org (exchange_GetId env patternId) \<longrightarrow>
          (case getEntry s org (exchange_GetId env patternId) of
             None \<Rightarrow> False
           | Some pe \<Rightarrow> hashOf env p = Inr (Hash pe)))"

subsection \<open>The failure policy for deletions, in the spec's words\<close>

text \<open>
  The spec has a file-system error during deletion logged without aborting the pass. Said
  of a list of deletions that a pass calls for: each is attempted in turn on the world the
  one before left, whatever the outcomes, and each failure adds one entry to the log.
  \<open>attempt_all\<close> yields the log entries and the world after the last deletion; the
  functions of the source are compared with it below.
\<close>

definition deletion_result ::
  "('p, 'pol, 'w) env \<Rightarrow> fs_call \<Rightarrow> 'w \<Rightarrow> error option \<times> 'w" where
  "deletion_result env c w =
     (case c of
        DeletePolicyFilesForOrgCall policyPath org patternBased \<Rightarrow>
          DeletePolicyFilesForOrg env policyPath org patternBased w
      | DeletePolicyFilesForPatternCall policyPath org pattern \<Rightarrow>
          DeletePolicyFilesForPattern env policyPath org pattern w
      | CreatePolicyFileCall policyPath org name \<Rightarrow> (None, w)
      | DeletePolicyFileCall fileName \<Rightarrow> (None, w))"

definition deletion_log :: "fs_call \<Rightarrow> error option \<Rightarrow> log_entry list" where
  "deletion_log c r =
     (case r of
        None \<Rightarrow> []
      | Some err \<Rightarrow>
          (case c of
             DeletePolicyFilesForOrgCall policyPath org patternBased \<Rightarrow> [ErrorDeletingOrg org err]
           | DeletePolicyFilesForPatternCall policyPath org pattern \<Rightarrow>
               [ErrorDeletingPattern org pattern err]
           | CreatePolicyFileCall policyPath org name \<Rightarrow> []
           | DeletePolicyFileCall fileName \<Rightarrow> []))"

fun attempt_all ::
  "('p, 'pol, 'w) env \<Rightarrow> fs_call list \<Rightarrow> 'w \<Rightarrow> log_entry list \<times> 'w" where
  "attempt_all env [] w = ([], w)"
| "attempt_all env (c # cs) w =
     (let (r, w1) = deletion_result env c w;
          (logged, w2) = attempt_all env cs w1
      in (deletion_log c r @ logged, w2))"

text \<open>
  The state after a pass has attempted the deletions \<open>calls\<close> and holds the map \<open>m\<close>:
  the calls are on record, the failures are in the log, the world is as the last deletion
  left it; the pattern variables are untouched.
\<close>

definition after_deletions ::
  "('p, 'pol, 'w) env \<Rightarrow> fs_call list \<Rightarrow> (string \<times> org_map) list \<Rightarrow> ('p, 'w) pm_state \<Rightarrow>
   ('p, 'w) pm_state" where
  "after_deletions env calls m s =
     s\<lparr>OrgPatterns := m,
       world := snd (attempt_all env calls (world s)),
       fsCalls := fsCalls s @ calls,
       errorLog := errorLog s @ fst (attempt_all env calls (world s))\<rparr>"

text \<open>
  The deletions \<open>SetCurrentPatterns\<close> is to make: for every org of the old map, in
  order, the files of the org if the new map lacks it, else the files of each of its
  patterns that the new map lacks.
\<close>

definition SetCurrentPatterns_deletions ::
  "string \<Rightarrow> (string \<times> org_map) list \<Rightarrow> (string \<times> org_map) list \<Rightarrow> fs_call list" where
  "SetCurrentPatterns_deletions policyPath newMap oldMap =
     concat (map (\<lambda>(org, orgMap).
        if map_of newMap org = None then [DeletePolicyFilesForOrgCall policyPath org True]
        else map (DeletePolicyFilesForPatternCall policyPath org)
               (filter (\<lambda>pattern.
                  map_of (case map_of newMap org of None \<Rightarrow> [] | Some m \<Rightarrow> m) pattern = None)
                  (map fst orgMap))) oldMap)"

text \<open>
  The deletions \<open>UpdatePatternPolicies\<close> is to make for a non-empty set of defined
  patterns: the files of each pattern of the org that is not among the defined patterns.
  \<open>update_start\<close> is the state in which its second loop is to begin: those deletions
  attempted, those patterns gone from the org's map, the next address taken by the range
  variable.
\<close>

definition UpdatePatternPolicies_deletions ::
  "('p, 'pol, 'w) env \<Rightarrow> string \<Rightarrow> (string \<times> 'p) list \<Rightarrow> string \<Rightarrow> ('p, 'w) pm_state \<Rightarrow>
   fs_call list" where
  "UpdatePatternPolicies_deletions env org definedPatterns policyPath s =
     map (DeletePolicyFilesForPatternCall policyPath org)
       (filter (\<lambda>pattern. \<not> UpdatePatternPolicies_found env pattern definedPatterns)
          (map fst (orgMapOf s org)))"

definition update_start ::
  "('p, 'pol, 'w) env \<Rightarrow> string \<Rightarrow> (string \<times> 'p) list \<Rightarrow> string \<Rightarrow> ('p, 'w) pm_state \<Rightarrow>
   ('p, 'w) pm_state" where
  "update_start env org definedPatterns policyPath s =
     (after_deletions env (UpdatePatternPolicies_deletions env org definedPatterns policyPath s)
        (AList.map_entry org
           (filter (\<lambda>(pattern, pe). UpdatePatternPolicies_found env pattern definedPatterns))
           (OrgPatterns s)) s)
     \<lparr>nextVar := Suc (nextVar s)\<rparr>"

subsection \<open>A concrete pattern manager\<close>

text \<open>
  Collaborators to instantiate the theorems with. A pattern is a number and serialises to
  one byte; the digest is a stand-in that keeps the bytes; a pattern id is
  \<open>org/name\<close>; a pattern converts to one policy, named after the pattern id; the world is
  the list of policy files on disk; the clock stands still.
\<close>

definition demo_GetId :: "string \<Rightarrow> string" where
  "demo_GetId patternId =
     (case dropWhile (\<lambda>c. c \<noteq> CHR ''/'') patternId of [] \<Rightarrow> patternId | c # name \<Rightarrow> name)"

definition demo_env :: "(nat, string, string list) env" where
  "demo_env =
     \<lparr>json_Marshal = (\<lambda>p. case p of None \<Rightarrow> Inr [] | Some n \<Rightarrow> Inr [of_nat n]),
      sha3_Sum256 = (\<lambda>bs. bs),
      exchange_GetId = demo_GetId,
      ConvertToPolicies = (\<lambda>patternId p. Inr [demo_GetId patternId]),
      Header_Name = (\<lambda>pol. pol),
      CreatePolicyFile = (\<lambda>policyPath org name pol w.
         (Inr (policyPath @ org @ ''/'' @ name), w @ [policyPath @ org @ ''/'' @ name])),
      DeletePolicyFile = (\<lambda>fileName w. (None, removeAll fileName w)),
      DeletePolicyFilesForOrg = (\<lambda>policyPath org patternBased w. (None, [])),
      DeletePolicyFilesForPattern = (\<lambda>policyPath org pattern w.
         (None, removeAll (policyPath @ org @ ''/'' @ pattern) w)),
      time_Now_Unix = (\<lambda>w. (1500000000, w))\<rparr>"

text \<open>The same collaborators with a file system that refuses to delete, or to create.\<close>

definition demo_env_no_delete :: "(nat, string, string list) env" where
  "demo_env_no_delete =
     demo_env\<lparr>DeletePolicyFile := (\<lambda>fileName w. (Some (External ''permission denied''), w)),
              DeletePolicyFilesForOrg :=
                (\<lambda>policyPath org patternBased w. (Some (External ''permission denied''), w)),
              DeletePolicyFilesForPattern :=
                (\<lambda>policyPath org pattern w. (Some (External ''permission denied''), w))\<rparr>"

definition demo_env_no_create :: "(nat, string, string list) env" where
  "demo_env_no_create =
     demo_env\<lparr>CreatePolicyFile := (\<lambda>policyPath org name pol w. (Inl (External ''disk full''), w))\<rparr>"

text \<open>
  A manager that serves the patterns \<open>p1\<close> and \<open>p2\<close> of the org \<open>acme\<close> and has
  seen neither yet, as \<open>SetCurrentPatterns\<close> leaves it.
\<close>

definition pm_fresh :: "(nat, string list) pm_state" where
  "pm_fresh =
     \<lparr>OrgPatterns = [(''acme'', [(''p1'', None), (''p2'', None)])],
      patternVars = Map.empty, nextVar = 0, world = [], fsCalls = [], errorLog = []\<rparr>"

text \<open>
  A manager that serves \<open>p1\<close> of \<open>acme\<close> and holds an entry for pattern number 7, with
  its policy file on disk.
\<close>

definition pm_p1 :: "(nat, string list) pm_state" where
  "pm_p1 =
     \<lparr>OrgPatterns =
        [(''acme'', [(''p1'', Some \<lparr>Pattern = Some 0, Updated = 1400000000, Hash = [7],
                                  PolicyFileNames = [''/policy/acme/p1'']\<rparr>)])],
      patternVars = [0 \<mapsto> 7], nextVar = 1, world = [''/policy/acme/p1''],
      fsCalls = [], errorLog = []\<rparr>"

text \<open>The fresh manager after a pass over two defined patterns, numbers 7 and 9.\<close>

definition defined_two :: "(string \<times> nat) list" where
  "defined_two = [(''acme/p1'', 7), (''acme/p2'', 9)]"

definition pm_after_pass :: "(nat, string list) pm_state" where
  "pm_after_pass = snd (UpdatePatternPolicies demo_env ''acme'' defined_two ''/policy/'' pm_fresh)"

section \<open>Properties of agreement ids\<close>

lemma hi_nibble_lt: "unat (drop_bit 4 (v :: 8 word)) < 16"
proof -
  have "unat (drop_bit 4 v) = unat v div 2 ^ 4"
    by (simp add: drop_bit_eq_div unat_div)
  moreover have "unat v < 2 ^ 8"
    using unsigned_less [of v] by simp
  ultimately show ?thesis by simp
qed

lemma lo_nibble_lt: "unat ((v :: 8 word) AND 0x0f) < 16"
proof -
  have "unat (v AND 15) \<le> unat (15 :: 8 word)"
    by (rule word_and_le1 [THEN word_le_nat_alt [THEN iffD1]])
  then show ?thesis by simp
qed

lemma hextable_nth_mem: "i < 16 \<Longrightarrow> hextable ! i \<in> set hextable"
  by (rule nth_mem) (simp add: hextable_def)

lemma hex_byte_chars: "set (hex_byte v) \<subseteq> set hextable"
  using hextable_nth_mem [OF hi_nibble_lt [of v]] hextable_nth_mem [OF lo_nibble_lt [of v]]
  by (simp add: hex_byte_def)

lemma hex_EncodeToString_length: "length (hex_EncodeToString bs) = 2 * length bs"
  by (induction bs) (simp_all add: hex_byte_def)

lemma hex_EncodeToString_chars: "set (hex_EncodeToString bs) \<subseteq> set hextable"
  using hex_byte_chars by (induction bs) auto

lemma GenerateAgreementId_ok:
  "GenerateAgreementId (Inr f) = (hex_EncodeToString (map f [0 ..< 32]), None)"
  by (simp add: GenerateAgreementId_def rand_Read_def)

lemma GenerateAgreementId_err: "GenerateAgreementId (Inl e) = ('''', Some e)"
  by (simp add: GenerateAgreementId_def rand_Read_def)

text \<open>
  C8. Whenever GenerateAgreementId succeeds (the random source returns no error), the
  returned id has exactly 64 characters, each a lowercase hexadecimal digit, and it is the
  hex encoding of the 32 bytes the random source delivered.
\<close>

theorem GenerateAgreementId_format:
  "GenerateAgreementId src = (s, None) \<Longrightarrow>
     length s = 64 \<and> set s \<subseteq> set ''0123456789abcdef'' \<and>
     (\<exists>f. src = Inr f \<and> s = hex_EncodeToString (map f [0 ..< 32]))"
proof -
  assume a: "GenerateAgreementId src = (s, None)"
  show ?thesis
  proof (cases src)
    case (Inl e)
    with a show ?thesis by (simp add: GenerateAgreementId_err)
  next
    case (Inr f)
    with a have s: "s = hex_EncodeToString (map f [0 ..< 32])"
      by (simp add: GenerateAgreementId_ok)
    have "length s = 64" by (simp add: s hex_EncodeToString_length)
    moreover have "set s \<subseteq> set ''0123456789abcdef''"
      using hex_EncodeToString_chars [of "map f [0 ..< 32]"] by (simp only: s hextable_def)
    ultimately show ?thesis using Inr s by simp
  qed
qed

theorem GenerateAgreementId_format_witness:
  "GenerateAgreementId (Inr (\<lambda>i. 0xa7)) =
     (''a7a7a7a7a7a7a7a7a7a7a7a7a7a7a7a7a7a7a7a7a7a7a7a7a7a7a7a7a7a7a7a7'', None) \<and>
   length ''a7a7a7a7a7a7a7a7a7a7a7a7a7a7a7a7a7a7a7a7a7a7a7a7a7a7a7a7a7a7a7a7'' = 64"
proof -
  have h: "GenerateAgreementId (Inr (\<lambda>i. 0xa7)) =
     (''a7a7a7a7a7a7a7a7a7a7a7a7a7a7a7a7a7a7a7a7a7a7a7a7a7a7a7a7a7a7a7a7'', None)"
    by (simp add: GenerateAgreementId_def rand_Read_def hex_byte_def hextable_def
        upt_rec [of _ "numeral _"] drop_bit_eq_div)
  from GenerateAgreementId_format [OF h] h show ?thesis by blast
qed

section \<open>Properties of the termination codes\<close>

lemma codes_list: "[200 ..< (211::nat)] = [200, 201, 202, 203, 204, 205, 206, 207, 208, 209, 210]"
  by (simp add: upt_rec [of _ "numeral _"])

lemmas reason_defs =
  TERM_REASON_POLICY_CHANGED_def TERM_REASON_NOT_FINALIZED_TIMEOUT_def
  TERM_REASON_NO_DATA_RECEIVED_def TERM_REASON_NO_REPLY_def TERM_REASON_USER_REQUESTED_def
  TERM_REASON_NEGATIVE_REPLY_def TERM_REASON_CANCEL_DISCOVERED_def
  TERM_REASON_CANCEL_FORCED_UPGRADE_def TERM_REASON_CANCEL_BC_WRITE_FAILED_def
  TERM_REASON_NODE_HEARTBEAT_def TERM_REASON_AG_MISSING_def

lemmas code_defs =
  AB_CANCEL_POLICY_CHANGED_def AB_CANCEL_NOT_FINALIZED_TIMEOUT_def
  AB_CANCEL_NO_DATA_RECEIVED_def AB_CANCEL_NO_REPLY_def AB_USER_REQUESTED_def
  AB_CANCEL_NEGATIVE_REPLY_def AB_CANCEL_DISCOVERED_def
  AB_CANCEL_FORCED_UPGRADE_def AB_CANCEL_BC_WRITE_FAILED_def
  AB_CANCEL_NODE_HEARTBEAT_def AB_CANCEL_AG_MISSING_def

lemma encode_table: "map GetTerminationCode term_reasons = [200 ..< 211]"
  by (simp add: codes_list term_reasons_def GetTerminationCode_def reason_defs code_defs)

lemma decode_table: "map GetTerminationReason [200 ..< 211] = term_reasons"
  by (simp add: codes_list term_reasons_def GetTerminationReason_def DecodeReasonCode_def code_defs)

lemma encode_unknown: "r \<notin> set term_reasons \<Longrightarrow> GetTerminationCode r = 999"
  by (simp add: term_reasons_def GetTerminationCode_def)

lemma encode_decode: "c \<in> {200 .. 210} \<Longrightarrow> GetTerminationCode (GetTerminationReason c) = c"
proof -
  assume c: "c \<in> {200 .. 210}"
  define i where "i = c - 200"
  have i: "i < 11" "c = 200 + i" using c by (auto simp: i_def)
  have n: "[200 ..< 211] ! i = 200 + i" by (rule nth_upt) (use i(1) in simp)
  have l: "i < length [200 ..< (211::nat)]" using i(1) by simp
  have "GetTerminationCode (GetTerminationReason c) =
        map GetTerminationCode (map GetTerminationReason [200 ..< 211]) ! i"
    using l n i(2) by (simp only: nth_map length_map)
  also have "\<dots> = [200 ..< 211] ! i" by (simp only: decode_table encode_table)
  finally show ?thesis using n i(2) by simp
qed

text \<open>
  C1. The reasons of the closed set encode, in the order of the table, to the codes 200 to
  210; these codes decode back to the same reasons; so encoding the decoded form of a code
  between 200 and 210 gives the code back; and every reason string outside the closed set
  encodes to 999.
\<close>

theorem termination_code_round_trip:
  "map GetTerminationCode term_reasons = [200 ..< 211] \<and>
   map GetTerminationReason [200 ..< 211] = term_reasons \<and>
   (\<forall>c \<in> {200 .. 210}. GetTerminationCode (GetTerminationReason c) = c) \<and>
   (\<forall>r. r \<notin> set term_reasons \<longrightarrow> GetTerminationCode r = 999)"
  using encode_table decode_table encode_decode encode_unknown by blast

theorem termination_code_round_trip_witness:
  "(205::nat) \<in> {200 .. 210} \<and> GetTerminationCode (GetTerminationReason 205) = 205 \<and>
   ''NoSuchReason'' \<notin> set term_reasons \<and> GetTerminationCode ''NoSuchReason'' = 999"
proof -
  have a: "(205::nat) \<in> {200 .. 210}" by simp
  have b: "''NoSuchReason'' \<notin> set term_reasons"
    by (simp add: term_reasons_def reason_defs)
  from termination_code_round_trip a b show ?thesis by blast
qed

section \<open>Properties of the ledger client registry\<close>

lemma getBCNameMap_lookup: "fst (getBCNameMap org ty bc) name = bcEntry bc org ty name"
  by (simp add: getBCNameMap_def bcEntry_def split: option.splits)

lemma getBCNameMap_keeps: "bcEntry (snd (getBCNameMap org ty bc)) o' t' n' = bcEntry bc o' t' n'"
  by (simp add: getBCNameMap_def bcEntry_def split: option.splits)

lemma AgreementProtocolHandler_generic:
  "AgreementProtocolHandler '''' '''' '''' c = (Some (genericAgreementPH c), c)"
  by (simp add: AgreementProtocolHandler_def)

lemma AgreementProtocolHandler_bound:
  "\<not> (ty = '''' \<and> name = '''' \<and> org = '''') \<Longrightarrow>
   AgreementProtocolHandler ty name org c =
     ((case bcEntry (bcState c) org ty name of
         None \<Rightarrow> None
       | Some e \<Rightarrow> if ready e then Some (agreementPH e) else None),
      c\<lparr>bcState := snd (getBCNameMap org ty (bcState c))\<rparr>)"
  by (cases "bcEntry (bcState c) org ty name")
     (auto simp: AgreementProtocolHandler_def Let_def case_prod_beta getBCNameMap_lookup)

lemma IsBlockchainReady_eq:
  "IsBlockchainReady ty name org c =
     ((case bcEntry (bcState c) org ty name of None \<Rightarrow> False | Some e \<Rightarrow> ready e),
      c\<lparr>bcState := snd (getBCNameMap org ty (bcState c))\<rparr>)"
  by (simp add: IsBlockchainReady_def Let_def case_prod_beta getBCNameMap_lookup
      split: option.splits)

lemma IsBlockchainWritable_eq:
  "IsBlockchainWritable ty name org c =
     ((case bcEntry (bcState c) org ty name of None \<Rightarrow> False | Some e \<Rightarrow> ready e \<and> writable e),
      c\<lparr>bcState := snd (getBCNameMap org ty (bcState c))\<rparr>)"
  by (simp add: IsBlockchainWritable_def Let_def case_prod_beta getBCNameMap_lookup
      split: option.splits)

lemma CanCancelNow_nil: "CanCancelNow None c = (True, c)"
  by (simp add: CanCancelNow_def)

lemma CanCancelNow_eq:
  "CanCancelNow (Some ag) c =
     ((case bcEntry (bcState c) (BlockchainOrg ag) (BlockchainType ag) (BlockchainName ag) of
         None \<Rightarrow> False | Some e \<Rightarrow> ready e),
      c\<lparr>bcState := snd (getBCNameMap (BlockchainOrg ag) (BlockchainType ag) (bcState c))\<rparr>)"
  by (simp add: CanCancelNow_def GetKnownBlockchain_def Let_def case_prod_beta
      getBCNameMap_lookup split: option.splits)

lemma getColonusDir_eq:
  "getColonusDir (Some ag) c =
     ((case bcEntry (bcState c) (BlockchainOrg ag) (BlockchainType ag) (BlockchainName ag) of
        None \<Rightarrow> '''' | Some e \<Rightarrow> if ready e then colonusDir e else ''''),
      c\<lparr>bcState := snd (getBCNameMap (BlockchainOrg ag) (BlockchainType ag) (bcState c))\<rparr>)"
  by (simp add: getColonusDir_def GetKnownBlockchain_def Let_def case_prod_beta
      getBCNameMap_lookup split: option.splits)

lemma bc_acme_bc1: "bcEntry bc_acme ''acme'' ''ethereum'' ''bc1'' =
   Some \<lparr>ready = True, writable = True, service = ''eth1'', servicePort = ''8545'',
                      colonusDir = ''/colonus/bc1'', agreementPH = Some 1\<rparr>"
  by (simp add: bcEntry_def bc_acme_def)

lemma bc_acme_bc2: "bcEntry bc_acme ''acme'' ''ethereum'' ''bc2'' =
   Some \<lparr>ready = False, writable = False, service = ''eth2'', servicePort = ''8546'',
                      colonusDir = ''/colonus/bc2'', agreementPH = Some 2\<rparr>"
  by (simp add: bcEntry_def bc_acme_def)

text \<open>
  C7. The empty triple is answered with the generic handler before the directory is
  consulted. For a ledger instance with no entry, or with an entry that is not ready:
  AgreementProtocolHandler (asked for any other triple than the empty one) returns nil,
  IsBlockchainReady and IsBlockchainWritable return false, and getColonusDir of an agreement
  recorded on that instance returns the empty string. IsBlockchainWritable returns true
  exactly when the entry exists and is both ready and writable.
\<close>

theorem registry_queries:
  "fst (AgreementProtocolHandler '''' '''' '''' c) = Some (genericAgreementPH c) \<and>
   (\<not> entryReady (bcState c) org ty name \<longrightarrow>
      (\<not> (ty = '''' \<and> name = '''' \<and> org = '''') \<longrightarrow>
         fst (AgreementProtocolHandler ty name org c) = None) \<and>
      \<not> fst (IsBlockchainReady ty name org c) \<and>
      \<not> fst (IsBlockchainWritable ty name org c) \<and>
      (BlockchainOrg ag = org \<and> BlockchainType ag = ty \<and> BlockchainName ag = name \<longrightarrow>
         fst (getColonusDir (Some ag) c) = '''')) \<and>
   (fst (IsBlockchainWritable ty name org c) \<longleftrightarrow>
      (\<exists>e. bcEntry (bcState c) org ty name = Some e \<and> ready e \<and> writable e))"
  by (auto simp: AgreementProtocolHandler_generic AgreementProtocolHandler_bound
      IsBlockchainReady_eq IsBlockchainWritable_eq getColonusDir_eq entryReady_def
      split: option.splits)

theorem registry_queries_witness:
  "\<not> entryReady (bcState handler_acme) ''acme'' ''ethereum'' ''bc2'' \<and>
   fst (AgreementProtocolHandler ''ethereum'' ''bc2'' ''acme'' handler_acme) = None \<and>
   \<not> fst (IsBlockchainReady ''ethereum'' ''bc2'' ''acme'' handler_acme) \<and>
   \<not> fst (IsBlockchainWritable ''ethereum'' ''bc2'' ''acme'' handler_acme) \<and>
   fst (getColonusDir (Some agreement_v1) handler_acme) = '''' \<and>
   fst (AgreementProtocolHandler '''' '''' '''' handler_acme) = Some (Some 0)"
proof -
  have h: "\<not> entryReady (bcState handler_acme) ''acme'' ''ethereum'' ''bc2''"
    by (simp add: entryReady_def handler_acme_def bc_acme_bc2)
  have a: "BlockchainOrg agreement_v1 = ''acme'' \<and> BlockchainType agreement_v1 = ''ethereum'' \<and>
           BlockchainName agreement_v1 = ''bc2''"
    by (simp add: agreement_v1_def)
  have g: "genericAgreementPH handler_acme = Some 0" by (simp add: handler_acme_def)
  from registry_queries [of handler_acme "''acme''" "''ethereum''" "''bc2''" agreement_v1] h a g
  show ?thesis by simp
qed

text \<open>
  C9. CanCancelNow of a nil agreement is true; of an agreement it is true exactly when the
  directory holds an entry for the agreement's recorded ledger (org, type, name) and that
  entry is ready.
\<close>

theorem CanCancelNow_spec:
  "fst (CanCancelNow None c) \<and>
   (fst (CanCancelNow (Some ag) c) \<longleftrightarrow>
      (\<exists>e. bcEntry (bcState c) (BlockchainOrg ag) (BlockchainType ag) (BlockchainName ag) = Some e
           \<and> ready e))"
  by (auto simp: CanCancelNow_eq CanCancelNow_nil split: option.splits)

theorem CanCancelNow_spec_witness:
  "fst (CanCancelNow (Some agreement_v2) handler_acme) \<and>
   \<not> fst (CanCancelNow (Some agreement_v1) handler_acme) \<and>
   fst (CanCancelNow None handler_acme)"
proof -
  have a: "bcEntry (bcState handler_acme) (BlockchainOrg agreement_v2) (BlockchainType agreement_v2)
             (BlockchainName agreement_v2) =
           Some \<lparr>ready = True, writable = True, service = ''eth1'', servicePort = ''8545'',
                 colonusDir = ''/colonus/bc1'', agreementPH = Some 1\<rparr>"
    by (simp add: handler_acme_def agreement_v2_def bc_acme_bc1)
  have b: "bcEntry (bcState handler_acme) (BlockchainOrg agreement_v1) (BlockchainType agreement_v1)
             (BlockchainName agreement_v1) =
           Some \<lparr>ready = False, writable = False, service = ''eth2'', servicePort = ''8546'',
                 colonusDir = ''/colonus/bc2'', agreementPH = Some 2\<rparr>"
    by (simp add: handler_acme_def agreement_v1_def bc_acme_bc2)
  from CanCancelNow_spec [of handler_acme agreement_v2] CanCancelNow_spec [of handler_acme agreement_v1]
    a b show ?thesis by simp
qed

section \<open>Properties of PostReply\<close>

lemma DeferCommand_fields:
  "deferredCommands (DeferCommand w c) = deferredCommands c @ [w]"
  "messages (DeferCommand w c) = messages c"
  "recordCalls (DeferCommand w c) = recordCalls c"
  "ph_name (DeferCommand w c) = ph_name c"
  "bcState (DeferCommand w c) = bcState c"
  by (simp_all add: DeferCommand_def)

lemma PostReply_v2_eq:
  assumes "findAgreement agreementId (ph_name c) = Inr (Some ag)"
      and "AgreementProtocolVersion ag = 2"
  shows "PostReply findAgreement recordAgreement agreementId proposal reply pol org workerId c =
     (let c1 = c\<lparr>bcState := snd (getBCNameMap (BlockchainOrg ag) (BlockchainType ag) (bcState c))\<rparr>
      in if fst (IsBlockchainWritable (BlockchainType ag) (BlockchainName ag) (BlockchainOrg ag) c)
         then (None, DeferCommand (AsyncWriteAgreement ASYNC_WRITE (CurrentAgreementId ag) (ph_name c))
                       (DeferCommand (AsyncUpdateAgreement ASYNC_UPDATE (CurrentAgreementId ag) (ph_name c)) c1))
         else (None, c1\<lparr>messages := messages c @
                 [NewBCContainerMessage NEW_BC_CLIENT (BlockchainType ag) (BlockchainName ag)
                    (BlockchainOrg ag) (ExchangeURL c) (agbotId c) (token c)]\<rparr>))"
  using assms
  by (simp add: PostReply_def IsBlockchainWritable_eq Let_def DeferCommand_fields)

lemma PostReply_v1_eq:
  assumes "findAgreement agreementId (ph_name c) = Inr (Some ag)"
      and "AgreementProtocolVersion ag < 2"
  shows "PostReply findAgreement recordAgreement agreementId proposal reply pol org workerId c =
     (case fst (AgreementProtocolHandler (BlockchainType ag) (BlockchainName ag) (BlockchainOrg ag) c) of
        None \<Rightarrow> (None, snd (AgreementProtocolHandler (BlockchainType ag) (BlockchainName ag) (BlockchainOrg ag) c))
      | Some h \<Rightarrow>
          (recordAgreement h proposal reply '''' '''' pol org,
           (snd (AgreementProtocolHandler (BlockchainType ag) (BlockchainName ag) (BlockchainOrg ag) c))
             \<lparr>recordCalls := recordCalls c @ [(h, proposal, reply, '''', '''', pol, org)]\<rparr>))"
proof -
  obtain aph c1 where a: "AgreementProtocolHandler (BlockchainType ag) (BlockchainName ag) (BlockchainOrg ag) c = (aph, c1)"
    by (cases "AgreementProtocolHandler (BlockchainType ag) (BlockchainName ag) (BlockchainOrg ag) c")
  have r: "recordCalls c1 = recordCalls c"
    using a by (auto simp: AgreementProtocolHandler_def Let_def case_prod_beta split: if_splits option.splits)
  show ?thesis using assms a r
    by (auto simp: PostReply_def Let_def split: option.splits)
qed

lemma AgreementProtocolHandler_keeps:
  "deferredCommands (snd (AgreementProtocolHandler ty name org c)) = deferredCommands c"
  "messages (snd (AgreementProtocolHandler ty name org c)) = messages c"
  "recordCalls (snd (AgreementProtocolHandler ty name org c)) = recordCalls c"
  by (auto simp: AgreementProtocolHandler_def Let_def case_prod_beta split: option.splits)

text \<open>
  C6, as the code has it. PostReply on an agreement found in the store. Version 2: it
  returns nil and records nothing itself; if the registry reports the agreement's ledger
  writable, exactly two work items are deferred, an AsyncUpdate and then an AsyncWrite
  carrying the agreement's id, and no message is sent; otherwise nothing is deferred and one
  NEW_BC_CLIENT message naming that ledger (type, name, org) is sent. Version below 2:
  nothing is deferred and no message is sent; if the registry yields a handler for the
  agreement's ledger (the generic handler when the agreement names no ledger), the reply is
  recorded through that handler and PostReply returns what the recording returned; if the
  registry yields none, nothing is recorded and PostReply returns nil.
\<close>

theorem PostReply_effects:
  assumes "findAgreement agreementId (ph_name c) = Inr (Some ag)"
      and "PostReply findAgreement recordAgreement agreementId proposal reply pol org workerId c = (r, c')"
  shows
    "(AgreementProtocolVersion ag = 2 \<longrightarrow>
        r = None \<and> recordCalls c' = recordCalls c \<and>
        (if fst (IsBlockchainWritable (BlockchainType ag) (BlockchainName ag) (BlockchainOrg ag) c)
         then deferredCommands c' = deferredCommands c @
                [AsyncUpdateAgreement ASYNC_UPDATE (CurrentAgreementId ag) (ph_name c),
                 AsyncWriteAgreement ASYNC_WRITE (CurrentAgreementId ag) (ph_name c)] \<and>
              messages c' = messages c
         else deferredCommands c' = deferredCommands c \<and>
              messages c' = messages c @
                [NewBCContainerMessage NEW_BC_CLIENT (BlockchainType ag) (BlockchainName ag)
                   (BlockchainOrg ag) (ExchangeURL c) (agbotId c) (token c)])) \<and>
     (AgreementProtocolVersion ag < 2 \<longrightarrow>
        deferredCommands c' = deferredCommands c \<and> messages c' = messages c \<and>
        (case fst (AgreementProtocolHandler (BlockchainType ag) (BlockchainName ag) (BlockchainOrg ag) c) of
           Some h \<Rightarrow> recordCalls c' = recordCalls c @ [(h, proposal, reply, '''', '''', pol, org)] \<and>
                     r = recordAgreement h proposal reply '''' '''' pol org
         | None \<Rightarrow> recordCalls c' = recordCalls c \<and> r = None))"
proof (intro conjI impI)
  assume v: "AgreementProtocolVersion ag = 2"
  note e = PostReply_v2_eq [where findAgreement = findAgreement and agreementId = agreementId
      and c = c and ag = ag and recordAgreement = recordAgreement and proposal = proposal
      and reply = reply and pol = pol and org = org and workerId = workerId, OF assms(1) v]
  show "r = None" using assms(2) e by (auto simp: Let_def split: if_splits)
  show "recordCalls c' = recordCalls c"
    using assms(2) e by (auto simp: Let_def DeferCommand_fields split: if_splits)
  show "if fst (IsBlockchainWritable (BlockchainType ag) (BlockchainName ag) (BlockchainOrg ag) c)
         then deferredCommands c' = deferredCommands c @
                [AsyncUpdateAgreement ASYNC_UPDATE (CurrentAgreementId ag) (ph_name c),
                 AsyncWriteAgreement ASYNC_WRITE (CurrentAgreementId ag) (ph_name c)] \<and>
              messages c' = messages c
         else deferredCommands c' = deferredCommands c \<and>
              messages c' = messages c @
                [NewBCContainerMessage NEW_BC_CLIENT (BlockchainType ag) (BlockchainName ag)
                   (BlockchainOrg ag) (ExchangeURL c) (agbotId c) (token c)]"
    using assms(2) e by (auto simp: Let_def DeferCommand_fields split: if_splits)
next
  assume v: "AgreementProtocolVersion ag < 2"
  note e = PostReply_v1_eq [where findAgreement = findAgreement and agreementId = agreementId
      and c = c and ag = ag and recordAgreement = recordAgreement and proposal = proposal
      and reply = reply and pol = pol and org = org and workerId = workerId, OF assms(1) v]
  show "deferredCommands c' = deferredCommands c"
    using assms(2) e by (auto simp: AgreementProtocolHandler_keeps split: option.splits)
  show "messages c' = messages c"
    using assms(2) e by (auto simp: AgreementProtocolHandler_keeps split: option.splits)
  show "case fst (AgreementProtocolHandler (BlockchainType ag) (BlockchainName ag) (BlockchainOrg ag) c) of
           Some h \<Rightarrow> recordCalls c' = recordCalls c @ [(h, proposal, reply, '''', '''', pol, org)] \<and>
                     r = recordAgreement h proposal reply '''' '''' pol org
         | None \<Rightarrow> recordCalls c' = recordCalls c \<and> r = None"
    using assms(2) e by (auto simp: AgreementProtocolHandler_keeps split: option.splits)
qed

theorem PostReply_effects_witness:
  "find_v2 ''a2'' (ph_name handler_acme) = Inr (Some agreement_v2) \<and>
   AgreementProtocolVersion agreement_v2 = 2 \<and>
   fst (IsBlockchainWritable ''ethereum'' ''bc1'' ''acme'' handler_acme) \<and>
   fst (PostReply find_v2 record_ok ''a2'' () () () ''acme'' ''w1'' handler_acme) = None \<and>
   deferredCommands (snd (PostReply find_v2 record_ok ''a2'' () () () ''acme'' ''w1'' handler_acme)) =
     [AsyncUpdateAgreement ASYNC_UPDATE ''a2'' ''Citizen Scientist'',
      AsyncWriteAgreement ASYNC_WRITE ''a2'' ''Citizen Scientist'']"
proof -
  have f: "find_v2 ''a2'' (ph_name handler_acme) = Inr (Some agreement_v2)"
    by (simp add: find_v2_def)
  have v: "AgreementProtocolVersion agreement_v2 = 2" by (simp add: agreement_v2_def)
  have w: "fst (IsBlockchainWritable ''ethereum'' ''bc1'' ''acme'' handler_acme)"
    by (simp add: IsBlockchainWritable_eq handler_acme_def bc_acme_bc1)
  have p: "PostReply find_v2 record_ok ''a2'' () () () ''acme'' ''w1'' handler_acme =
      (fst (PostReply find_v2 record_ok ''a2'' () () () ''acme'' ''w1'' handler_acme),
       snd (PostReply find_v2 record_ok ''a2'' () () () ''acme'' ''w1'' handler_acme))"
    by simp
  from PostReply_effects [where findAgreement = find_v2 and agreementId = "''a2''"
      and c = handler_acme and ag = agreement_v2, OF f p] v w f show ?thesis
    by (simp add: agreement_v2_def handler_acme_def)
qed

text \<open>
  A version-1 agreement on the ledger instance \<open>bc2\<close>, which the registry knows but
  which is not ready: PostReply returns nil and no recording call is made.
\<close>

theorem PostReply_v1_not_recorded:
  "fst (PostReply find_v1 record_ok ''a1'' () () () ''acme'' ''w1'' handler_acme) = None \<and>
   recordCalls (snd (PostReply find_v1 record_ok ''a1'' () () () ''acme'' ''w1'' handler_acme)) = []"
proof -
  have f: "find_v1 ''a1'' (ph_name handler_acme) = Inr (Some agreement_v1)"
    by (simp add: find_v1_def)
  have v: "AgreementProtocolVersion agreement_v1 < 2" by (simp add: agreement_v1_def)
  have n: "fst (AgreementProtocolHandler (BlockchainType agreement_v1) (BlockchainName agreement_v1)
              (BlockchainOrg agreement_v1) handler_acme) = None"
    by (simp add: AgreementProtocolHandler_bound agreement_v1_def handler_acme_def bc_acme_bc2)
  note e = PostReply_v1_eq [where findAgreement = find_v1 and agreementId = "''a1''"
      and c = handler_acme and ag = agreement_v1, OF f v]
  show ?thesis
    by (simp add: e n AgreementProtocolHandler_keeps) (simp add: handler_acme_def)
qed

section \<open>Properties of the pattern manager\<close>

lemma hashPattern_var:
  "patternVars s a = Some p \<Longrightarrow> hashPattern env (Some a) s = hashOf env p"
  by (simp add: hashPattern_def hashOf_def deref_def)

lemma deletePattern_None: "fst (deletePattern env policyPath org pattern s) = None"
  by (simp add: deletePattern_def Let_def case_prod_beta)

lemma deleteOrg_None: "fst (deleteOrg env policyPath org s) = None"
  by (simp add: deleteOrg_def Let_def case_prod_beta)

lemma SetCurrentPatterns_patterns_None:
  "fst (SetCurrentPatterns_patterns env policyPath newMap org ps s) = None"
proof (induction ps arbitrary: s)
  case Nil
  show ?case by simp
next
  case (Cons p ps)
  obtain r s1 where d: "deletePattern env policyPath org p s = (r, s1)"
    by (cases "deletePattern env policyPath org p s")
  with deletePattern_None [of env policyPath org p s] have "r = None" by simp
  with d Cons.IH show ?case by simp
qed

lemma SetCurrentPatterns_orgs_None:
  "fst (SetCurrentPatterns_orgs env policyPath newMap os s) = None"
proof (induction os arbitrary: s)
  case Nil
  show ?case by simp
next
  case (Cons x os)
  obtain org orgMap where x: "x = (org, orgMap)" by (cases x)
  obtain r s1 where d: "deleteOrg env policyPath org s = (r, s1)"
    by (cases "deleteOrg env policyPath org s")
  with deleteOrg_None [of env policyPath org s] have r: "r = None" by simp
  obtain r2 s2 where p: "SetCurrentPatterns_patterns env policyPath newMap org (map fst orgMap) s = (r2, s2)"
    by (cases "SetCurrentPatterns_patterns env policyPath newMap org (map fst orgMap) s")
  with SetCurrentPatterns_patterns_None [of env policyPath newMap org "map fst orgMap" s]
  have r2: "r2 = None" by simp
  show ?case using x d r p r2 Cons.IH by simp
qed

lemma SetCurrentPatterns_None: "fst (SetCurrentPatterns env served policyPath s) = None"
proof -
  obtain r s1 where o: "SetCurrentPatterns_orgs env policyPath (SetCurrentPatterns_served s served [])
      (OrgPatterns s) s = (r, s1)"
    by (cases "SetCurrentPatterns_orgs env policyPath (SetCurrentPatterns_served s served [])
      (OrgPatterns s) s")
  with SetCurrentPatterns_orgs_None [of env policyPath "SetCurrentPatterns_served s served []" "OrgPatterns s" s]
  have "r = None" by simp
  with o show ?thesis by (simp add: SetCurrentPatterns_def Let_def)
qed

lemma UpdatePatternPolicies_delete_None:
  "fst (UpdatePatternPolicies_delete env org dps policyPath ks s) = None"
proof (induction ks arbitrary: s)
  case Nil
  show ?case by simp
next
  case (Cons k ks)
  obtain r s1 where d: "deletePattern env policyPath org k s = (r, s1)"
    by (cases "deletePattern env policyPath org k s")
  with deletePattern_None [of env policyPath org k s] have "r = None" by simp
  with d Cons.IH show ?case by simp
qed

subsection \<open>What each operation leaves unchanged\<close>

lemma createPolicyFiles_loop_frame:
  "createPolicyFiles_loop env path org pols pe s = (r, pe', s') \<Longrightarrow>
     Pattern pe' = Pattern pe \<and> Hash pe' = Hash pe \<and> Updated pe' = Updated pe \<and>
     OrgPatterns s' = OrgPatterns s \<and> patternVars s' = patternVars s \<and>
     nextVar s' = nextVar s \<and> errorLog s' = errorLog s"
proof (induction pols arbitrary: pe s)
  case Nil
  then show ?case by simp
next
  case (Cons pol pols)
  obtain x w1 where c: "CreatePolicyFile env path org (Header_Name env pol) pol (world s) = (x, w1)"
    by (cases "CreatePolicyFile env path org (Header_Name env pol) pol (world s)")
  show ?case
  proof (cases x)
    case (Inl err)
    with Cons.prems c show ?thesis by auto
  next
    case (Inr fileName)
    with Cons.prems c have
      "createPolicyFiles_loop env path org pols (AddPolicyFileName pe fileName)
         (s\<lparr>world := w1, fsCalls := fsCalls s @ [CreatePolicyFileCall path org (Header_Name env pol)]\<rparr>)
       = (r, pe', s')" by simp
    from Cons.IH [OF this] show ?thesis by (simp add: AddPolicyFileName_def)
  qed
qed

lemma createPolicyFiles_frame:
  "createPolicyFiles env pe patternId pattern path org s = (r, pe', s') \<Longrightarrow>
     Pattern pe' = Pattern pe \<and> Hash pe' = Hash pe \<and> Updated pe' = Updated pe \<and>
     OrgPatterns s' = OrgPatterns s \<and> patternVars s' = patternVars s \<and>
     nextVar s' = nextVar s \<and> errorLog s' = errorLog s"
  by (auto simp: createPolicyFiles_def split: sum.splits dest: createPolicyFiles_loop_frame)

lemma DeleteAllPolicyFiles_loop_frame:
  "DeleteAllPolicyFiles_loop env fs s = (r, s') \<Longrightarrow>
     OrgPatterns s' = OrgPatterns s \<and> patternVars s' = patternVars s \<and>
     nextVar s' = nextVar s \<and> errorLog s' = errorLog s"
proof (induction fs arbitrary: s)
  case Nil
  then show ?case by simp
next
  case (Cons f fs)
  obtain x w1 where c: "DeletePolicyFile env f (world s) = (x, w1)"
    by (cases "DeletePolicyFile env f (world s)")
  show ?case
  proof (cases x)
    case (Some err)
    with Cons.prems c show ?thesis by auto
  next
    case None
    with Cons.prems c have
      "DeleteAllPolicyFiles_loop env fs
         (s\<lparr>world := w1, fsCalls := fsCalls s @ [DeletePolicyFileCall f]\<rparr>) = (r, s')" by simp
    from Cons.IH [OF this] show ?thesis by simp
  qed
qed

lemma DeleteAllPolicyFiles_frame:
  "DeleteAllPolicyFiles env pe path org s = (r, s') \<Longrightarrow>
     OrgPatterns s' = OrgPatterns s \<and> patternVars s' = patternVars s \<and>
     nextVar s' = nextVar s \<and> errorLog s' = errorLog s"
  unfolding DeleteAllPolicyFiles_def by (rule DeleteAllPolicyFiles_loop_frame)

lemma hashPattern_vars:
  "patternVars s' = patternVars s \<Longrightarrow> hashPattern env p s' = hashPattern env p s"
  by (cases p) (simp_all add: hashPattern_def deref_def)

lemma NewPatternEntry_frame:
  "NewPatternEntry env p s = (x, s') \<Longrightarrow>
     OrgPatterns s' = OrgPatterns s \<and> patternVars s' = patternVars s \<and>
     nextVar s' = nextVar s \<and> errorLog s' = errorLog s \<and> fsCalls s' = fsCalls s"
  by (auto simp: NewPatternEntry_def Let_def case_prod_beta split: sum.splits)

lemma NewPatternEntry_Inr:
  "NewPatternEntry env p s = (Inr pe, s') \<Longrightarrow>
     Pattern pe = p \<and> hashPattern env p s = Inr (Hash pe) \<and> PolicyFileNames pe = []"
  using hashPattern_vars [of "s\<lparr>world := snd (time_Now_Unix env (world s))\<rparr>" s env p]
  by (auto simp: NewPatternEntry_def Let_def case_prod_beta split: sum.splits)

lemma UpdateEntry_frame:
  "UpdateEntry env pe p h s = (pe', s') \<Longrightarrow>
     OrgPatterns s' = OrgPatterns s \<and> patternVars s' = patternVars s \<and>
     nextVar s' = nextVar s \<and> errorLog s' = errorLog s \<and> fsCalls s' = fsCalls s \<and>
     Pattern pe' = p \<and> Hash pe' = h \<and> PolicyFileNames pe' = []"
  by (auto simp: UpdateEntry_def Let_def case_prod_beta)

lemma hasOrg_vars [simp]: "hasOrg (s\<lparr>patternVars := x\<rparr>) = hasOrg s"
  by (simp add: hasOrg_def fun_eq_iff)

lemma orgMapOf_vars [simp]: "orgMapOf (s\<lparr>patternVars := x\<rparr>) = orgMapOf s"
  by (simp add: orgMapOf_def fun_eq_iff)

lemma hasPattern_vars [simp]: "hasPattern (s\<lparr>patternVars := x\<rparr>) = hasPattern s"
  by (simp add: hasPattern_def fun_eq_iff)

lemma getEntry_vars [simp]: "getEntry (s\<lparr>patternVars := x\<rparr>) = getEntry s"
  by (simp add: getEntry_def fun_eq_iff)

lemma body_cases [consumes 1, case_names skip new_fail new hash_fail same del_fail changed]:
  assumes b: "UpdatePatternPolicies_body env org path a pid p s = (r, s')"
  obtains
    "\<not> hasPattern s org (exchange_GetId env pid)" "r = None"
      "s' = s\<lparr>patternVars := (patternVars s)(a \<mapsto> p)\<rparr>"
  | err s1 where "hasPattern s org (exchange_GetId env pid)"
      "getEntry s org (exchange_GetId env pid) = None"
      "NewPatternEntry env (Some a) (s\<lparr>patternVars := (patternVars s)(a \<mapsto> p)\<rparr>) = (Inl err, s1)"
      "r = Some (UnableToCreateEntry err)" "s' = s1"
  | newPE s1 r1 newPE1 s3 where "hasPattern s org (exchange_GetId env pid)"
      "getEntry s org (exchange_GetId env pid) = None"
      "NewPatternEntry env (Some a) (s\<lparr>patternVars := (patternVars s)(a \<mapsto> p)\<rparr>) = (Inr newPE, s1)"
      "createPolicyFiles env newPE pid (Some a) path org
         (setEntry org (exchange_GetId env pid) (Some newPE) s1) = (r1, newPE1, s3)"
      "r = map_option UnableToCreateFiles r1"
      "s' = setEntry org (exchange_GetId env pid) (Some newPE1) s3"
  | pe err where "hasPattern s org (exchange_GetId env pid)"
      "getEntry s org (exchange_GetId env pid) = Some pe"
      "hashOf env p = Inl err" "r = Some (UnableToHash err)"
      "s' = s\<lparr>patternVars := (patternVars s)(a \<mapsto> p)\<rparr>"
  | pe where "hasPattern s org (exchange_GetId env pid)"
      "getEntry s org (exchange_GetId env pid) = Some pe"
      "hashOf env p = Inr (Hash pe)" "r = None"
      "s' = s\<lparr>patternVars := (patternVars s)(a \<mapsto> p)\<rparr>"
  | pe newHash err s1 where "hasPattern s org (exchange_GetId env pid)"
      "getEntry s org (exchange_GetId env pid) = Some pe"
      "hashOf env p = Inr newHash" "Hash pe \<noteq> newHash"
      "DeleteAllPolicyFiles env pe path org (s\<lparr>patternVars := (patternVars s)(a \<mapsto> p)\<rparr>) = (Some err, s1)"
      "r = Some (UnableToDeleteFiles err)" "s' = s1"
  | pe newHash s1 pe1 s2 r1 pe2 s4 where "hasPattern s org (exchange_GetId env pid)"
      "getEntry s org (exchange_GetId env pid) = Some pe"
      "hashOf env p = Inr newHash" "Hash pe \<noteq> newHash"
      "DeleteAllPolicyFiles env pe path org (s\<lparr>patternVars := (patternVars s)(a \<mapsto> p)\<rparr>) = (None, s1)"
      "UpdateEntry env pe (Some a) newHash s1 = (pe1, s2)"
      "createPolicyFiles env pe1 pid (Some a) path org
         (setEntry org (exchange_GetId env pid) (Some pe1) s2) = (r1, pe2, s4)"
      "r = map_option UnableToCreateFiles r1"
      "s' = setEntry org (exchange_GetId env pid) (Some pe2) s4"
proof -
  define s0 where "s0 = s\<lparr>patternVars := (patternVars s)(a \<mapsto> p)\<rparr>"
  define k where "k = exchange_GetId env pid"
  have h: "hashPattern env (Some a) s0 = hashOf env p"
    by (rule hashPattern_var) (simp add: s0_def)
  show thesis
  proof (cases "hasPattern s org k")
    case False
    with b have "r = None" "s' = s0"
      by (simp_all add: UpdatePatternPolicies_body_def k_def s0_def)
    with False that(1) show thesis by (simp add: k_def s0_def)
  next
    case hp: True
    show thesis
    proof (cases "getEntry s org k")
      case None
      obtain x s1 where n: "NewPatternEntry env (Some a) s0 = (x, s1)"
        by (cases "NewPatternEntry env (Some a) s0")
      show thesis
      proof (cases x)
        case (Inl err)
        with b hp None n have "r = Some (UnableToCreateEntry err)" "s' = s1"
          by (simp_all add: UpdatePatternPolicies_body_def k_def s0_def)
        with hp None n Inl that(2) show thesis by (simp add: k_def s0_def)
      next
        case (Inr newPE)
        obtain r1 newPE1 s3 where c:
          "createPolicyFiles env newPE pid (Some a) path org (setEntry org k (Some newPE) s1)
             = (r1, newPE1, s3)"
          by (cases "createPolicyFiles env newPE pid (Some a) path org (setEntry org k (Some newPE) s1)")
        with b hp None n Inr have "r = map_option UnableToCreateFiles r1"
          "s' = setEntry org k (Some newPE1) s3"
          by (auto simp: UpdatePatternPolicies_body_def k_def s0_def Let_def split: option.splits)
        with hp None n Inr c that(3) show thesis by (simp add: k_def s0_def)
      qed
    next
      case (Some pe)
      show thesis
      proof (cases "hashOf env p")
        case (Inl err)
        with b hp Some h have "r = Some (UnableToHash err)" "s' = s0"
          by (simp_all add: UpdatePatternPolicies_body_def k_def s0_def)
        with hp Some Inl that(4) show thesis by (simp add: k_def s0_def)
      next
        case (Inr newHash)
        show thesis
        proof (cases "Hash pe = newHash")
          case True
          with b hp Some h Inr have "r = None" "s' = s0"
            by (simp_all add: UpdatePatternPolicies_body_def k_def s0_def)
          with hp Some Inr True that(5) show thesis by (simp add: k_def s0_def)
        next
          case ne: False
          obtain x s1 where d: "DeleteAllPolicyFiles env pe path org s0 = (x, s1)"
            by (cases "DeleteAllPolicyFiles env pe path org s0")
          show thesis
          proof (cases x)
            case (Some err)
            with b hp \<open>getEntry s org k = Some pe\<close> h Inr ne d
            have "r = Some (UnableToDeleteFiles err)" "s' = s1"
              by (simp_all add: UpdatePatternPolicies_body_def k_def s0_def)
            with hp \<open>getEntry s org k = Some pe\<close> Inr ne d Some that(6) show thesis
              by (simp add: k_def s0_def)
          next
            case None
            obtain pe1 s2 where u: "UpdateEntry env pe (Some a) newHash s1 = (pe1, s2)"
              by (cases "UpdateEntry env pe (Some a) newHash s1")
            obtain r1 pe2 s4 where c:
              "createPolicyFiles env pe1 pid (Some a) path org (setEntry org k (Some pe1) s2)
                 = (r1, pe2, s4)"
              by (cases "createPolicyFiles env pe1 pid (Some a) path org (setEntry org k (Some pe1) s2)")
            with b hp \<open>getEntry s org k = Some pe\<close> h Inr ne d None u
            have "r = map_option UnableToCreateFiles r1" "s' = setEntry org k (Some pe2) s4"
              by (auto simp: UpdatePatternPolicies_body_def k_def s0_def Let_def split: option.splits)
            with hp \<open>getEntry s org k = Some pe\<close> Inr ne d None u c that(7) show thesis
              by (simp add: k_def s0_def)
          qed
        qed
      qed
    qed
  qed
qed

lemma body_error_kind:
  assumes "UpdatePatternPolicies_body env org path a pid p s = (Some e, s')"
  shows "\<exists>x. e = UnableToCreateEntry x \<or> e = UnableToCreateFiles x \<or> e = UnableToHash x \<or>
             e = UnableToDeleteFiles x"
  using assms by (cases rule: body_cases) (auto simp: map_option_case split: option.splits)

lemma update_error_kind:
  "UpdatePatternPolicies_update env org path a dps s = (Some e, s') \<Longrightarrow>
   \<exists>x. e = UnableToCreateEntry x \<or> e = UnableToCreateFiles x \<or> e = UnableToHash x \<or>
       e = UnableToDeleteFiles x"
proof (induction dps arbitrary: s)
  case Nil
  then show ?case by simp
next
  case (Cons d dps)
  obtain pid p where d: "d = (pid, p)" by (cases d)
  obtain r s1 where b: "UpdatePatternPolicies_body env org path a pid p s = (r, s1)"
    by (cases "UpdatePatternPolicies_body env org path a pid p s")
  show ?case
  proof (cases r)
    case None
    with Cons.prems d b have "UpdatePatternPolicies_update env org path a dps s1 = (Some e, s')"
      by simp
    then show ?thesis by (rule Cons.IH)
  next
    case (Some e')
    with Cons.prems d b have "e' = e" by simp
    with b Some have "UpdatePatternPolicies_body env org path a pid p s = (Some e, s1)" by simp
    then show ?thesis by (rule body_error_kind)
  qed
qed

lemma UpdatePatternPolicies_error_kind:
  assumes "UpdatePatternPolicies env org dps path s = (Some e, s')"
  shows "e = OrgNotFound org \<or>
     (\<exists>x. e = UnableToCreateEntry x \<or> e = UnableToCreateFiles x \<or> e = UnableToHash x \<or>
          e = UnableToDeleteFiles x)"
proof (cases "hasOrg s org")
  case False
  with assms show ?thesis by (simp add: UpdatePatternPolicies_def)
next
  case ho: True
  show ?thesis
  proof (cases "length dps = 0")
    case True
    with assms ho deleteOrg_None [of env path org s] show ?thesis
      by (simp add: UpdatePatternPolicies_def)
  next
    case False
    obtain r s1 where d: "UpdatePatternPolicies_delete env org dps path (map fst (orgMapOf s org)) s = (r, s1)"
      by (cases "UpdatePatternPolicies_delete env org dps path (map fst (orgMapOf s org)) s")
    with UpdatePatternPolicies_delete_None [of env org dps path "map fst (orgMapOf s org)" s]
    have "r = None" by simp
    with assms ho False d have
      "UpdatePatternPolicies_update env org path (nextVar s1) dps (s1\<lparr>nextVar := Suc (nextVar s1)\<rparr>)
        = (Some e, s')"
      by (simp add: UpdatePatternPolicies_def)
    from update_error_kind [OF this] show ?thesis by blast
  qed
qed

lemma deleteOrg_log:
  "DeletePolicyFilesForOrg env path org True (world s) = (Some err, w) \<Longrightarrow>
   errorLog (snd (deleteOrg env path org s)) = errorLog s @ [ErrorDeletingOrg org err]"
  by (simp add: deleteOrg_def Let_def)

lemma deletePattern_log:
  "DeletePolicyFilesForPattern env path org pattern (world s) = (Some err, w) \<Longrightarrow>
   errorLog (snd (deletePattern env path org pattern s)) = errorLog s @ [ErrorDeletingPattern org pattern err]"
  by (simp add: deletePattern_def Let_def)

lemma body_delete_failure:
  assumes "hasPattern s org (exchange_GetId env pid)"
      and "getEntry s org (exchange_GetId env pid) = Some pe"
      and "hashOf env p = Inr newHash" and "Hash pe \<noteq> newHash"
      and "DeleteAllPolicyFiles env pe path org (s\<lparr>patternVars := (patternVars s)(a \<mapsto> p)\<rparr>) = (Some err, s1)"
  shows "UpdatePatternPolicies_body env org path a pid p s = (Some (UnableToDeleteFiles err), s1)"
  using assms hashPattern_var [of "s\<lparr>patternVars := (patternVars s)(a \<mapsto> p)\<rparr>" a p env]
  by (simp add: UpdatePatternPolicies_body_def)

text \<open>
  C10. UpdatePatternPolicies called with an org that is not in the manager's map returns
  the error "org not found" at once and leaves the whole state as it was: the manager's
  map, the world outside (so the policy directory), the calls made on the policy-file
  library and the log.
\<close>

theorem UpdatePatternPolicies_unknown_org:
  "\<not> hasOrg s org \<Longrightarrow>
   UpdatePatternPolicies env org definedPatterns policyPath s = (Some (OrgNotFound org), s)"
  by (simp add: UpdatePatternPolicies_def)

theorem UpdatePatternPolicies_unknown_org_witness:
  "\<not> hasOrg pm_p1 ''ibm'' \<and>
   UpdatePatternPolicies demo_env ''ibm'' [(''ibm/p1'', 7)] ''/policy/'' pm_p1 =
     (Some (OrgNotFound ''ibm''), pm_p1)"
proof -
  have h: "\<not> hasOrg pm_p1 ''ibm''" by (simp add: hasOrg_def pm_p1_def)
  from UpdatePatternPolicies_unknown_org [OF h] h show ?thesis by simp
qed

lemma hasOrg_setEntry [simp]: "hasOrg (setEntry org k v s) org' = hasOrg s org'"
  by (simp add: hasOrg_def setEntry_def map_of_map_entry split: option.splits)

lemma orgMapOf_setEntry:
  "orgMapOf (setEntry org k v s) org' =
     (if org' = org \<and> hasOrg s org then AList.update k v (orgMapOf s org) else orgMapOf s org')"
  by (simp add: orgMapOf_def hasOrg_def setEntry_def map_of_map_entry split: option.splits)

lemma getEntry_setEntry_same: "hasOrg s org \<Longrightarrow> getEntry (setEntry org k v s) org k = v"
  by (simp add: getEntry_def orgMapOf_setEntry update_conv' split: option.splits)

lemma getEntry_setEntry_other:
  "(org', k') \<noteq> (org, k) \<Longrightarrow> getEntry (setEntry org k v s) org' k' = getEntry s org' k'"
  by (auto simp: getEntry_def orgMapOf_setEntry update_conv' split: option.splits)

lemma hasPattern_setEntry:
  "hasPattern (setEntry org k v s) org' k' \<longleftrightarrow>
     hasPattern s org' k' \<or> (org' = org \<and> k' = k \<and> hasOrg s org)"
  by (auto simp: hasPattern_def orgMapOf_setEntry update_conv')

lemma keys_setEntry:
  "hasPattern s org k \<Longrightarrow> map fst (orgMapOf (setEntry org k v s) org') = map fst (orgMapOf s org')"
  by (auto simp: orgMapOf_setEntry hasPattern_def update_keys map_of_eq_None_iff)

lemma same_map:
  "OrgPatterns s' = OrgPatterns s \<Longrightarrow>
     hasOrg s' = hasOrg s \<and> orgMapOf s' = orgMapOf s \<and> hasPattern s' = hasPattern s \<and>
     getEntry s' = getEntry s"
  by (simp add: hasOrg_def orgMapOf_def hasPattern_def getEntry_def fun_eq_iff)

lemma deref_var: "deref (Some a) s = patternVars s a"
  by (simp add: deref_def)

lemma body_create_failure:
  assumes "UpdatePatternPolicies_body env org path a pid p s = (Some (UnableToCreateFiles e), s')"
  shows "\<exists>pe. getEntry s' org (exchange_GetId env pid) = Some pe \<and> hashOf env p = Inr (Hash pe) \<and>
              deref (Pattern pe) s' = Some p"
  using assms
proof (cases rule: body_cases)
  case (new newPE s1 r1 newPE1 s3)
  let ?s0 = "s\<lparr>patternVars := (patternVars s)(a \<mapsto> p)\<rparr>"
  let ?k = "exchange_GetId env pid"
  note n = NewPatternEntry_frame [OF new(3)] NewPatternEntry_Inr [OF new(3)]
  note c = createPolicyFiles_frame [OF new(4)]
  have ho: "hasOrg s3 org"
    using new(1) n c same_map [of s1 ?s0] same_map [of s3 "setEntry org ?k (Some newPE) s1"]
    by (simp add: hasPattern_def)
  have g: "getEntry s' org ?k = Some newPE1"
    using ho new(6) by (simp add: getEntry_setEntry_same)
  have v: "patternVars s' a = Some p"
    using new(6) n c by (simp add: setEntry_def)
  have h: "hashOf env p = Inr (Hash newPE1)"
    using n c hashPattern_var [of ?s0 a p env] by simp
  have "Pattern newPE1 = Some a" using n c by simp
  with g v h show ?thesis by (simp add: deref_var)
next
  case (changed pe newHash s1 pe1 s2 r1 pe2 s4)
  let ?s0 = "s\<lparr>patternVars := (patternVars s)(a \<mapsto> p)\<rparr>"
  let ?k = "exchange_GetId env pid"
  note d = DeleteAllPolicyFiles_frame [OF changed(5)]
  note u = UpdateEntry_frame [OF changed(6)]
  note c = createPolicyFiles_frame [OF changed(7)]
  have "OrgPatterns s2 = OrgPatterns s" using d u by simp
  then have "hasOrg s2 org" using changed(1) same_map [of s2 s] by (simp add: hasPattern_def)
  then have ho: "hasOrg s4 org"
    using c same_map [of s4 "setEntry org ?k (Some pe1) s2"] by simp
  have g: "getEntry s' org ?k = Some pe2"
    using ho changed(9) by (simp add: getEntry_setEntry_same)
  have v: "patternVars s' a = Some p"
    using changed(9) d u c by (simp add: setEntry_def)
  have h: "hashOf env p = Inr (Hash pe2)" using changed(3) u c by simp
  have "Pattern pe2 = Some a" using u c by simp
  with g v h show ?thesis by (simp add: deref_var)
qed simp_all

lemma update_create_failure:
  "UpdatePatternPolicies_update env org path a dps s = (Some (UnableToCreateFiles e), s') \<Longrightarrow>
   \<exists>pid p pe. (pid, p) \<in> set dps \<and> getEntry s' org (exchange_GetId env pid) = Some pe \<and>
      hashOf env p = Inr (Hash pe) \<and> deref (Pattern pe) s' = Some p"
proof (induction dps arbitrary: s)
  case Nil
  then show ?case by simp
next
  case (Cons d dps)
  obtain pid p where d: "d = (pid, p)" by (cases d)
  obtain r s1 where b: "UpdatePatternPolicies_body env org path a pid p s = (r, s1)"
    by (cases "UpdatePatternPolicies_body env org path a pid p s")
  show ?case
  proof (cases r)
    case None
    with Cons.prems d b have
      "UpdatePatternPolicies_update env org path a dps s1 = (Some (UnableToCreateFiles e), s')"
      by simp
    from Cons.IH [OF this] show ?thesis by auto
  next
    case (Some e')
    with Cons.prems d b have "e' = UnableToCreateFiles e" "s1 = s'" by simp_all
    with b Some have "UpdatePatternPolicies_body env org path a pid p s = (Some (UnableToCreateFiles e), s')"
      by simp
    from body_create_failure [OF this] d show ?thesis by auto
  qed
qed

lemma hashes_current_same_map:
  "OrgPatterns s' = OrgPatterns s \<Longrightarrow> hashes_current env org dps s' = hashes_current env org dps s"
  using same_map [of s' s] by (simp add: hashes_current_def)

lemma hashes_current_Cons:
  "hashes_current env org ((pid, p) # dps) s \<longleftrightarrow>
     (hasPattern s org (exchange_GetId env pid) \<longrightarrow>
        (\<exists>pe. getEntry s org (exchange_GetId env pid) = Some pe \<and> hashOf env p = Inr (Hash pe))) \<and>
     hashes_current env org dps s"
  by (auto simp: hashes_current_def split: option.splits)

lemma body_idle:
  assumes "hasPattern s org (exchange_GetId env pid) \<longrightarrow>
        (\<exists>pe. getEntry s org (exchange_GetId env pid) = Some pe \<and> hashOf env p = Inr (Hash pe))"
  shows "UpdatePatternPolicies_body env org path a pid p s =
           (None, s\<lparr>patternVars := (patternVars s)(a \<mapsto> p)\<rparr>)"
proof -
  obtain r s' where b: "UpdatePatternPolicies_body env org path a pid p s = (r, s')"
    by (cases "UpdatePatternPolicies_body env org path a pid p s")
  from b assms have "r = None \<and> s' = s\<lparr>patternVars := (patternVars s)(a \<mapsto> p)\<rparr>"
    by (cases rule: body_cases) auto
  with b show ?thesis by simp
qed

lemma update_idle:
  "hashes_current env org dps s \<Longrightarrow>
   \<exists>pv. UpdatePatternPolicies_update env org path a dps s = (None, s\<lparr>patternVars := pv\<rparr>) \<and>
        (\<forall>b. b \<noteq> a \<longrightarrow> pv b = patternVars s b)"
proof (induction dps arbitrary: s)
  case Nil
  have "s = s\<lparr>patternVars := patternVars s\<rparr>" by simp
  then show ?case by (metis UpdatePatternPolicies_update.simps(1))
next
  case (Cons d dps)
  obtain pid p where d: "d = (pid, p)" by (cases d)
  let ?s0 = "s\<lparr>patternVars := (patternVars s)(a \<mapsto> p)\<rparr>"
  from Cons.prems d have h: "hasPattern s org (exchange_GetId env pid) \<longrightarrow>
        (\<exists>pe. getEntry s org (exchange_GetId env pid) = Some pe \<and> hashOf env p = Inr (Hash pe))"
    and r: "hashes_current env org dps s"
    by (simp_all add: hashes_current_Cons)
  have b: "UpdatePatternPolicies_body env org path a pid p s = (None, ?s0)"
    using h by (rule body_idle)
  have "hashes_current env org dps ?s0"
    using r hashes_current_same_map [of ?s0 s env org dps] by simp
  from Cons.IH [OF this] obtain pv where
    u: "UpdatePatternPolicies_update env org path a dps ?s0 = (None, ?s0\<lparr>patternVars := pv\<rparr>)"
    and f: "\<forall>b. b \<noteq> a \<longrightarrow> pv b = patternVars ?s0 b" by blast
  have "UpdatePatternPolicies_update env org path a (d # dps) s = (None, s\<lparr>patternVars := pv\<rparr>)"
    using d b u by simp
  moreover have "\<forall>b. b \<noteq> a \<longrightarrow> pv b = patternVars s b" using f by simp
  ultimately show ?case by blast
qed

lemma delete_idle:
  "\<forall>k \<in> set ks. UpdatePatternPolicies_found env k dps \<Longrightarrow>
   UpdatePatternPolicies_delete env org dps path ks s = (None, s)"
  by (induction ks) simp_all

subsection \<open>What a pass leaves behind\<close>

lemma orgMapOf_deletePattern:
  "orgMapOf (snd (deletePattern env path org k s)) org = AList.delete k (orgMapOf s org)"
proof -
  have "map_of (orgMapOf s org) k = None \<Longrightarrow> AList.delete k (orgMapOf s org) = orgMapOf s org"
    by (rule AList.delete_id) (simp add: map_of_eq_None_iff)
  moreover have "\<not> hasOrg s org \<Longrightarrow> orgMapOf s org = []"
    by (simp add: hasOrg_def orgMapOf_def)
  ultimately show ?thesis
    by (auto simp: deletePattern_def Let_def case_prod_beta orgMapOf_def hasOrg_def
        map_of_map_entry split: option.splits)
qed

lemma hasOrg_deletePattern: "hasOrg (snd (deletePattern env path org k s)) org' = hasOrg s org'"
  by (auto simp: deletePattern_def Let_def case_prod_beta hasOrg_def map_of_map_entry
      split: option.splits)

lemma delete_loop_post:
  "UpdatePatternPolicies_delete env org dps path ks s = (r, s') \<Longrightarrow>
     hasOrg s' org = hasOrg s org \<and>
     orgMapOf s' org =
       filter (\<lambda>(k, v). k \<notin> set ks \<or> UpdatePatternPolicies_found env k dps) (orgMapOf s org)"
proof (induction ks arbitrary: s)
  case Nil
  then show ?case by simp
next
  case (Cons k ks)
  show ?case
  proof (cases "UpdatePatternPolicies_found env k dps")
    case True
    with Cons.prems have "UpdatePatternPolicies_delete env org dps path ks s = (r, s')" by simp
    from Cons.IH [OF this] True show ?thesis
      by (auto intro!: filter_cong)
  next
    case False
    obtain r1 s1 where d: "deletePattern env path org k s = (r1, s1)"
      by (cases "deletePattern env path org k s")
    with deletePattern_None [of env path org k s] have r1: "r1 = None" by simp
    from d have s1: "s1 = snd (deletePattern env path org k s)" by simp
    from Cons.prems False d r1 have "UpdatePatternPolicies_delete env org dps path ks s1 = (r, s')"
      by simp
    from Cons.IH [OF this] False show ?thesis
      by (auto simp: s1 orgMapOf_deletePattern hasOrg_deletePattern AList.delete_eq intro!: filter_cong)
  qed
qed

lemma body_keys:
  assumes "UpdatePatternPolicies_body env org path a pid p s = (r, s')"
  shows "hasOrg s' org = hasOrg s org \<and> map fst (orgMapOf s' org) = map fst (orgMapOf s org)"
  using assms
proof (cases rule: body_cases)
  case (new_fail err s1)
  with NewPatternEntry_frame [OF new_fail(3)] same_map [of s1 "s\<lparr>patternVars := (patternVars s)(a \<mapsto> p)\<rparr>"]
  show ?thesis by simp
next
  case (new newPE s1 r1 newPE1 s3)
  let ?s0 = "s\<lparr>patternVars := (patternVars s)(a \<mapsto> p)\<rparr>"
  let ?k = "exchange_GetId env pid"
  note n = NewPatternEntry_frame [OF new(3)]
  note c = createPolicyFiles_frame [OF new(4)]
  have m1: "hasOrg s1 = hasOrg s" "orgMapOf s1 = orgMapOf s" "hasPattern s1 = hasPattern s"
    using n same_map [of s1 ?s0] by simp_all
  have m3: "hasOrg s3 = hasOrg (setEntry org ?k (Some newPE) s1)"
    "orgMapOf s3 = orgMapOf (setEntry org ?k (Some newPE) s1)"
    "hasPattern s3 = hasPattern (setEntry org ?k (Some newPE) s1)"
    using c same_map [of s3 "setEntry org ?k (Some newPE) s1"] by simp_all
  have hp1: "hasPattern s1 org ?k" using new(1) m1 by simp
  then have hp3: "hasPattern s3 org ?k" using m3 by (simp add: hasPattern_setEntry)
  show ?thesis
    using new(6) hp1 hp3 m1 m3 by (simp add: keys_setEntry)
next
  case (del_fail pe newHash err s1)
  with DeleteAllPolicyFiles_frame [OF del_fail(5)]
    same_map [of s1 "s\<lparr>patternVars := (patternVars s)(a \<mapsto> p)\<rparr>"]
  show ?thesis by simp
next
  case (changed pe newHash s1 pe1 s2 r1 pe2 s4)
  let ?s0 = "s\<lparr>patternVars := (patternVars s)(a \<mapsto> p)\<rparr>"
  let ?k = "exchange_GetId env pid"
  note d = DeleteAllPolicyFiles_frame [OF changed(5)]
  note u = UpdateEntry_frame [OF changed(6)]
  note c = createPolicyFiles_frame [OF changed(7)]
  have "OrgPatterns s2 = OrgPatterns s" using d u by simp
  then have m2: "hasOrg s2 = hasOrg s" "orgMapOf s2 = orgMapOf s" "hasPattern s2 = hasPattern s"
    using same_map [of s2 s] by simp_all
  have m4: "hasOrg s4 = hasOrg (setEntry org ?k (Some pe1) s2)"
    "orgMapOf s4 = orgMapOf (setEntry org ?k (Some pe1) s2)"
    "hasPattern s4 = hasPattern (setEntry org ?k (Some pe1) s2)"
    using c same_map [of s4 "setEntry org ?k (Some pe1) s2"] by simp_all
  have hp2: "hasPattern s2 org ?k" using changed(1) m2 by simp
  then have hp4: "hasPattern s4 org ?k" using m4 by (simp add: hasPattern_setEntry)
  show ?thesis
    using changed(9) hp2 hp4 m2 m4 by (simp add: keys_setEntry)
qed simp_all

lemma update_keys_kept:
  "UpdatePatternPolicies_update env org path a dps s = (r, s') \<Longrightarrow>
     hasOrg s' org = hasOrg s org \<and> map fst (orgMapOf s' org) = map fst (orgMapOf s org)"
proof (induction dps arbitrary: s)
  case Nil
  then show ?case by simp
next
  case (Cons d dps)
  obtain pid p where d: "d = (pid, p)" by (cases d)
  obtain r1 s1 where b: "UpdatePatternPolicies_body env org path a pid p s = (r1, s1)"
    by (cases "UpdatePatternPolicies_body env org path a pid p s")
  note k = body_keys [OF b]
  show ?case
  proof (cases r1)
    case None
    with Cons.prems d b have "UpdatePatternPolicies_update env org path a dps s1 = (r, s')" by simp
    from Cons.IH [OF this] k show ?thesis by simp
  next
    case (Some e)
    with Cons.prems d b have "s' = s1" by simp
    with k show ?thesis by simp
  qed
qed

lemma hasOrg_nextVar [simp]: "hasOrg (s\<lparr>nextVar := x\<rparr>) = hasOrg s"
  by (simp add: hasOrg_def fun_eq_iff)

lemma orgMapOf_nextVar [simp]: "orgMapOf (s\<lparr>nextVar := x\<rparr>) = orgMapOf s"
  by (simp add: orgMapOf_def fun_eq_iff)

lemma hasOrg_deleteOrg: "\<not> hasOrg (snd (deleteOrg env path org s)) org"
  by (simp add: deleteOrg_def Let_def case_prod_beta hasOrg_def delete_conv' split: option.splits)

lemma pass_leaves_found_keys:
  assumes "UpdatePatternPolicies env org dps path s0 = (None, s)" and "dps \<noteq> []"
  shows "hasOrg s org \<and> (\<forall>k \<in> set (map fst (orgMapOf s org)). UpdatePatternPolicies_found env k dps)"
proof -
  have ho: "hasOrg s0 org" using assms(1) by (auto simp: UpdatePatternPolicies_def split: if_splits)
  obtain r1 s1 where d: "UpdatePatternPolicies_delete env org dps path (map fst (orgMapOf s0 org)) s0 = (r1, s1)"
    by (cases "UpdatePatternPolicies_delete env org dps path (map fst (orgMapOf s0 org)) s0")
  with UpdatePatternPolicies_delete_None [of env org dps path "map fst (orgMapOf s0 org)" s0]
  have r1: "r1 = None" by simp
  from assms ho d r1 have u:
    "UpdatePatternPolicies_update env org path (nextVar s1) dps (s1\<lparr>nextVar := Suc (nextVar s1)\<rparr>) = (None, s)"
    by (simp add: UpdatePatternPolicies_def)
  note p = delete_loop_post [OF d]
  note k = update_keys_kept [OF u]
  have "hasOrg s org" using ho p k by simp
  moreover have "\<forall>k \<in> set (map fst (orgMapOf s org)). UpdatePatternPolicies_found env k dps"
  proof
    fix k assume "k \<in> set (map fst (orgMapOf s org))"
    then have "k \<in> fst ` set (orgMapOf s1 org)" using k by simp
    then obtain v where "(k, v) \<in> set (orgMapOf s1 org)" by auto
    then have "(k, v) \<in> set (orgMapOf s0 org)"
      and "k \<notin> set (map fst (orgMapOf s0 org)) \<or> UpdatePatternPolicies_found env k dps"
      using p by auto
    then show "UpdatePatternPolicies_found env k dps" by force
  qed
  ultimately show ?thesis by simp
qed

text \<open>
  C2. After a pass of UpdatePatternPolicies that returned nil, a second pass with the same
  org and the same defined patterns, finding for every served defined pattern an entry
  whose stored hash is the recomputed hash, makes no call on the policy-file library (no
  deletion, no creation), leaves the world outside and the log as they are, and leaves the
  manager's map, hence every PatternEntry, unchanged; the pattern variables allocated
  before the pass keep their values. It returns nil, or "org not found" when the defined
  patterns were empty and the first pass removed the org.
\<close>

theorem second_pass_idle:
  assumes "UpdatePatternPolicies env org definedPatterns policyPath s0 = (None, s)"
      and "hashes_current env org definedPatterns s"
  shows "\<exists>r s'. UpdatePatternPolicies env org definedPatterns policyPath s = (r, s') \<and>
           r = (if definedPatterns = [] then Some (OrgNotFound org) else None) \<and>
           fsCalls s' = fsCalls s \<and> world s' = world s \<and> errorLog s' = errorLog s \<and>
           OrgPatterns s' = OrgPatterns s \<and>
           (\<forall>a < nextVar s. patternVars s' a = patternVars s a)"
proof (cases "definedPatterns = []")
  case True
  have ho: "hasOrg s0 org" using assms(1) by (auto simp: UpdatePatternPolicies_def split: if_splits)
  with assms(1) True have "s = snd (deleteOrg env policyPath org s0)"
    by (simp add: UpdatePatternPolicies_def)
  then have "\<not> hasOrg s org" by (simp add: hasOrg_deleteOrg)
  then have "UpdatePatternPolicies env org definedPatterns policyPath s = (Some (OrgNotFound org), s)"
    by (simp add: UpdatePatternPolicies_def)
  with True show ?thesis by simp
next
  case False
  note f = pass_leaves_found_keys [OF assms(1) False]
  have d: "UpdatePatternPolicies_delete env org definedPatterns policyPath (map fst (orgMapOf s org)) s
             = (None, s)"
    using f by (intro delete_idle) simp
  let ?s1 = "s\<lparr>nextVar := Suc (nextVar s)\<rparr>"
  have "hashes_current env org definedPatterns ?s1"
    using assms(2) hashes_current_same_map [of ?s1 s env org definedPatterns] by simp
  from update_idle [OF this, of policyPath "nextVar s"] obtain pv where
    u: "UpdatePatternPolicies_update env org policyPath (nextVar s) definedPatterns ?s1
          = (None, ?s1\<lparr>patternVars := pv\<rparr>)"
    and v: "\<forall>b. b \<noteq> nextVar s \<longrightarrow> pv b = patternVars ?s1 b" by blast
  have "UpdatePatternPolicies env org definedPatterns policyPath s = (None, ?s1\<lparr>patternVars := pv\<rparr>)"
    using f False d u by (simp add: UpdatePatternPolicies_def)
  moreover have "\<forall>a < nextVar s. patternVars (?s1\<lparr>patternVars := pv\<rparr>) a = patternVars s a"
    using v by simp
  ultimately show ?thesis using False by simp
qed

theorem second_pass_idle_witness:
  "UpdatePatternPolicies demo_env ''acme'' defined_two ''/policy/'' pm_fresh = (None, pm_after_pass) \<and>
   hashes_current demo_env ''acme'' defined_two pm_after_pass \<and>
   (\<exists>s'. UpdatePatternPolicies demo_env ''acme'' defined_two ''/policy/'' pm_after_pass = (None, s') \<and>
         fsCalls s' = fsCalls pm_after_pass \<and> world s' = world pm_after_pass \<and>
         OrgPatterns s' = OrgPatterns pm_after_pass)"
proof -
  have f: "fst (UpdatePatternPolicies demo_env ''acme'' defined_two ''/policy/'' pm_fresh) = None"
    by code_simp
  have h: "UpdatePatternPolicies demo_env ''acme'' defined_two ''/policy/'' pm_fresh = (None, pm_after_pass)"
    using f by (simp add: prod_eq_iff pm_after_pass_def)
  have c: "hashes_current demo_env ''acme'' defined_two pm_after_pass"
    by code_simp
  have n: "defined_two \<noteq> []" by (simp add: defined_two_def)
  from second_pass_idle [OF h c] h c n show ?thesis by auto
qed

subsection \<open>Entries and the patterns they point to\<close>

lemma body_var:
  assumes "UpdatePatternPolicies_body env org path a pid p s = (r, s')"
  shows "patternVars s' a = Some p"
  using assms
proof (cases rule: body_cases)
  case (new_fail err s1)
  with NewPatternEntry_frame [OF new_fail(3)] show ?thesis by simp
next
  case (new newPE s1 r1 newPE1 s3)
  with NewPatternEntry_frame [OF new(3)] createPolicyFiles_frame [OF new(4)]
  show ?thesis by (simp add: setEntry_def)
next
  case (del_fail pe newHash err s1)
  with DeleteAllPolicyFiles_frame [OF del_fail(5)] show ?thesis by simp
next
  case (changed pe newHash s1 pe1 s2 r1 pe2 s4)
  with DeleteAllPolicyFiles_frame [OF changed(5)] UpdateEntry_frame [OF changed(6)]
    createPolicyFiles_frame [OF changed(7)]
  show ?thesis by (simp add: setEntry_def)
qed simp_all

lemma body_other_entry:
  assumes "UpdatePatternPolicies_body env org path a pid p s = (r, s')"
      and "(org', k') \<noteq> (org, exchange_GetId env pid)"
  shows "getEntry s' org' k' = getEntry s org' k' \<and> hasPattern s' org' k' = hasPattern s org' k'"
  using assms(1)
proof (cases rule: body_cases)
  case (new_fail err s1)
  with NewPatternEntry_frame [OF new_fail(3)]
    same_map [of s1 "s\<lparr>patternVars := (patternVars s)(a \<mapsto> p)\<rparr>"]
  show ?thesis by simp
next
  case (new newPE s1 r1 newPE1 s3)
  let ?s0 = "s\<lparr>patternVars := (patternVars s)(a \<mapsto> p)\<rparr>"
  let ?k = "exchange_GetId env pid"
  note n = NewPatternEntry_frame [OF new(3)]
  note c = createPolicyFiles_frame [OF new(4)]
  have m1: "getEntry s1 = getEntry s" "hasPattern s1 = hasPattern s"
    using n same_map [of s1 ?s0] by simp_all
  have m3: "getEntry s3 = getEntry (setEntry org ?k (Some newPE) s1)"
    "hasPattern s3 = hasPattern (setEntry org ?k (Some newPE) s1)"
    using c same_map [of s3 "setEntry org ?k (Some newPE) s1"] by simp_all
  show ?thesis
    using new(6) assms(2) m1 m3 by (auto simp: getEntry_setEntry_other hasPattern_setEntry)
next
  case (del_fail pe newHash err s1)
  with DeleteAllPolicyFiles_frame [OF del_fail(5)]
    same_map [of s1 "s\<lparr>patternVars := (patternVars s)(a \<mapsto> p)\<rparr>"]
  show ?thesis by simp
next
  case (changed pe newHash s1 pe1 s2 r1 pe2 s4)
  let ?k = "exchange_GetId env pid"
  note d = DeleteAllPolicyFiles_frame [OF changed(5)]
  note u = UpdateEntry_frame [OF changed(6)]
  note c = createPolicyFiles_frame [OF changed(7)]
  have "OrgPatterns s2 = OrgPatterns s" using d u by simp
  then have m2: "getEntry s2 = getEntry s" "hasPattern s2 = hasPattern s"
    using same_map [of s2 s] by simp_all
  have m4: "getEntry s4 = getEntry (setEntry org ?k (Some pe1) s2)"
    "hasPattern s4 = hasPattern (setEntry org ?k (Some pe1) s2)"
    using c same_map [of s4 "setEntry org ?k (Some pe1) s2"] by simp_all
  show ?thesis
    using changed(9) assms(2) m2 m4 by (auto simp: getEntry_setEntry_other hasPattern_setEntry)
qed simp_all

lemma body_new_entry:
  assumes "UpdatePatternPolicies_body env org path a pid p s = (None, s')"
      and "hasPattern s org (exchange_GetId env pid)"
      and "getEntry s org (exchange_GetId env pid) = None"
  shows "\<exists>pe. getEntry s' org (exchange_GetId env pid) = Some pe \<and> Pattern pe = Some a \<and>
              hashOf env p = Inr (Hash pe)"
  using assms(1)
proof (cases rule: body_cases)
  case (new newPE s1 r1 newPE1 s3)
  let ?s0 = "s\<lparr>patternVars := (patternVars s)(a \<mapsto> p)\<rparr>"
  let ?k = "exchange_GetId env pid"
  note n = NewPatternEntry_frame [OF new(3)] NewPatternEntry_Inr [OF new(3)]
  note c = createPolicyFiles_frame [OF new(4)]
  have ho: "hasOrg s3 org"
    using new(1) n c same_map [of s1 ?s0] same_map [of s3 "setEntry org ?k (Some newPE) s1"]
    by (simp add: hasPattern_def)
  have g: "getEntry s' org ?k = Some newPE1"
    using ho new(6) by (simp add: getEntry_setEntry_same)
  have h: "hashOf env p = Inr (Hash newPE1)"
    using n c hashPattern_var [of ?s0 a p env] by simp
  have "Pattern newPE1 = Some a" using n c by simp
  with g h show ?thesis by simp
qed (use assms in simp_all)

lemma map_of_kept_by_filter:
  "map_of xs k = Some v \<Longrightarrow> P k \<Longrightarrow> map_of (filter (\<lambda>(k, v). P k) xs) k = Some v"
  by (induction xs) (auto split: if_splits)

lemma delete_loop_keeps_found:
  assumes "UpdatePatternPolicies_delete env org dps path ks s = (r, s')"
      and "UpdatePatternPolicies_found env k dps"
      and "hasPattern s org k"
  shows "hasPattern s' org k \<and> getEntry s' org k = getEntry s org k"
proof -
  note p = delete_loop_post [OF assms(1)]
  from assms(3) obtain v where v: "map_of (orgMapOf s org) k = Some v"
    by (auto simp: hasPattern_def)
  have "map_of (orgMapOf s' org) k = Some v"
    using p map_of_kept_by_filter [OF v, of "\<lambda>k. k \<notin> set ks \<or> UpdatePatternPolicies_found env k dps"]
      assms(2) by simp
  with v p assms(3) show ?thesis by (simp add: hasPattern_def getEntry_def)
qed

lemma body_entry_current:
  assumes "UpdatePatternPolicies_body env org path a pid p s = (None, s')"
      and "hasPattern s org (exchange_GetId env pid)"
  shows "\<exists>pe. getEntry s' org (exchange_GetId env pid) = Some pe \<and> hashOf env p = Inr (Hash pe)"
  using assms(1)
proof (cases rule: body_cases)
  case (new newPE s1 r1 newPE1 s3)
  then have "getEntry s org (exchange_GetId env pid) = None" by simp
  from body_new_entry [OF assms(1,2) this] show ?thesis by blast
next
  case (changed pe newHash s1 pe1 s2 r1 pe2 s4)
  let ?k = "exchange_GetId env pid"
  note d = DeleteAllPolicyFiles_frame [OF changed(5)]
  note u = UpdateEntry_frame [OF changed(6)]
  note c = createPolicyFiles_frame [OF changed(7)]
  have "OrgPatterns s2 = OrgPatterns s" using d u by simp
  then have "hasOrg s2 org" using changed(1) same_map [of s2 s] by (simp add: hasPattern_def)
  then have ho: "hasOrg s4 org"
    using c same_map [of s4 "setEntry org ?k (Some pe1) s2"] by simp
  have "getEntry s' org ?k = Some pe2"
    using ho changed(9) by (simp add: getEntry_setEntry_same)
  moreover have "hashOf env p = Inr (Hash pe2)" using changed(3) u c by simp
  ultimately show ?thesis by simp
qed (use assms in simp_all)

lemma update_other_entry:
  "UpdatePatternPolicies_update env org path a dps s = (r, s') \<Longrightarrow>
   k \<notin> set (map (\<lambda>d. exchange_GetId env (fst d)) dps) \<Longrightarrow>
   getEntry s' org k = getEntry s org k \<and> hasPattern s' org k = hasPattern s org k"
proof (induction dps arbitrary: s)
  case Nil
  then show ?case by simp
next
  case (Cons d dps)
  obtain pid p where d: "d = (pid, p)" by (cases d)
  obtain r1 s1 where b: "UpdatePatternPolicies_body env org path a pid p s = (r1, s1)"
    by (cases "UpdatePatternPolicies_body env org path a pid p s")
  from Cons.prems(2) d have ne: "(org, k) \<noteq> (org, exchange_GetId env pid)"
    and rest: "k \<notin> set (map (\<lambda>d. exchange_GetId env (fst d)) dps)" by auto
  note o = body_other_entry [OF b ne]
  show ?case
  proof (cases r1)
    case None
    with Cons.prems(1) d b have "UpdatePatternPolicies_update env org path a dps s1 = (r, s')" by simp
    from Cons.IH [OF this rest] o show ?thesis by simp
  next
    case (Some e)
    with Cons.prems(1) d b have "s' = s1" by simp
    with o show ?thesis by simp
  qed
qed

lemma hasPattern_keys:
  "hasPattern s org k \<longleftrightarrow> hasOrg s org \<and> k \<in> set (map fst (orgMapOf s org))"
  by (auto simp: hasPattern_def map_of_eq_None_iff)

lemma update_entries_current:
  "UpdatePatternPolicies_update env org path a dps s = (None, s') \<Longrightarrow>
   distinct (map (\<lambda>d. exchange_GetId env (fst d)) dps) \<Longrightarrow>
   hashes_current env org dps s'"
proof (induction dps arbitrary: s)
  case Nil
  show ?case by (simp add: hashes_current_def)
next
  case (Cons d dps)
  obtain pid p where d: "d = (pid, p)" by (cases d)
  let ?k = "exchange_GetId env pid"
  obtain r1 s1 where b: "UpdatePatternPolicies_body env org path a pid p s = (r1, s1)"
    by (cases "UpdatePatternPolicies_body env org path a pid p s")
  have r1: "r1 = None" using Cons.prems(1) d b by (cases r1) simp_all
  with Cons.prems(1) d b have u: "UpdatePatternPolicies_update env org path a dps s1 = (None, s')"
    by simp
  from Cons.prems(2) d have dist: "distinct (map (\<lambda>d. exchange_GetId env (fst d)) dps)"
    and fresh: "?k \<notin> set (map (\<lambda>d. exchange_GetId env (fst d)) dps)" by simp_all
  have rest: "hashes_current env org dps s'" using Cons.IH [OF u dist] .
  note o = update_other_entry [OF u fresh]
  note k = body_keys [OF b]
  have "hasPattern s' org ?k \<longrightarrow>
          (\<exists>pe. getEntry s' org ?k = Some pe \<and> hashOf env p = Inr (Hash pe))"
  proof
    assume "hasPattern s' org ?k"
    then have "hasPattern s1 org ?k" using o by simp
    then have "hasPattern s org ?k" using k by (simp add: hasPattern_keys)
    from body_entry_current [of env org path a pid p s s1] b r1 this o
    show "\<exists>pe. getEntry s' org ?k = Some pe \<and> hashOf env p = Inr (Hash pe)" by simp
  qed
  with rest d show ?case by (simp add: hashes_current_Cons)
qed

lemma first_pass_current:
  assumes "UpdatePatternPolicies env org dps path s0 = (None, s)"
      and "distinct (map (\<lambda>d. exchange_GetId env (fst d)) dps)"
  shows "hashes_current env org dps s"
proof (cases "dps = []")
  case True
  then show ?thesis by (simp add: hashes_current_def)
next
  case False
  have ho: "hasOrg s0 org" using assms(1) by (auto simp: UpdatePatternPolicies_def split: if_splits)
  obtain r1 s1 where d: "UpdatePatternPolicies_delete env org dps path (map fst (orgMapOf s0 org)) s0 = (r1, s1)"
    by (cases "UpdatePatternPolicies_delete env org dps path (map fst (orgMapOf s0 org)) s0")
  with UpdatePatternPolicies_delete_None [of env org dps path "map fst (orgMapOf s0 org)" s0]
  have "r1 = None" by simp
  with assms(1) ho d False have
    "UpdatePatternPolicies_update env org path (nextVar s1) dps (s1\<lparr>nextVar := Suc (nextVar s1)\<rparr>) = (None, s)"
    by (simp add: UpdatePatternPolicies_def)
  then show ?thesis using assms(2) by (rule update_entries_current)
qed

text \<open>
  C3, where the code departs from it. A manager serves two patterns of an org and has an
  entry for neither; the exchange defines both, with different hashes, and
  UpdatePatternPolicies returns nil. Then the entry of the pattern visited first stores the
  hash of its own defined pattern, but its Pattern field points to the range variable of the
  loop, which by then holds the pattern visited last: the hash of the pattern the entry
  points to is not the Hash the entry stores.
\<close>

theorem stale_pattern_pointer:
  assumes "hasPattern s org k1" and "getEntry s org k1 = None"
      and "hasPattern s org k2" and "getEntry s org k2 = None"
      and "exchange_GetId env id1 = k1" and "exchange_GetId env id2 = k2" and "k1 \<noteq> k2"
      and "hashOf env p1 \<noteq> hashOf env p2"
      and "UpdatePatternPolicies env org [(id1, p1), (id2, p2)] policyPath s = (None, s')"
  shows "\<exists>pe. getEntry s' org k1 = Some pe \<and> hashOf env p1 = Inr (Hash pe) \<and>
              deref (Pattern pe) s' = Some p2 \<and> hashPattern env (Pattern pe) s' \<noteq> Inr (Hash pe)"
proof -
  let ?dps = "[(id1, p1), (id2, p2)]"
  have ho: "hasOrg s org" using assms(1) by (simp add: hasPattern_def)
  obtain r0 t where d: "UpdatePatternPolicies_delete env org ?dps policyPath (map fst (orgMapOf s org)) s = (r0, t)"
    by (cases "UpdatePatternPolicies_delete env org ?dps policyPath (map fst (orgMapOf s org)) s")
  with UpdatePatternPolicies_delete_None [of env org ?dps policyPath "map fst (orgMapOf s org)" s]
  have r0: "r0 = None" by simp
  let ?a = "nextVar t"
  let ?t = "t\<lparr>nextVar := Suc (nextVar t)\<rparr>"
  from assms(9) ho d r0 have u:
    "UpdatePatternPolicies_update env org policyPath ?a ?dps ?t = (None, s')"
    by (simp add: UpdatePatternPolicies_def)
  have f1: "UpdatePatternPolicies_found env k1 ?dps" using assms(5) by simp
  have f2: "UpdatePatternPolicies_found env k2 ?dps" using assms(6) by simp
  have t1: "hasPattern ?t org k1" "getEntry ?t org k1 = None"
    using delete_loop_keeps_found [OF d f1 assms(1)] assms(2) same_map [of ?t t] by simp_all
  have t2: "hasPattern ?t org k2" "getEntry ?t org k2 = None"
    using delete_loop_keeps_found [OF d f2 assms(3)] assms(4) same_map [of ?t t] by simp_all
  obtain r1 s1 where b1: "UpdatePatternPolicies_body env org policyPath ?a id1 p1 ?t = (r1, s1)"
    by (cases "UpdatePatternPolicies_body env org policyPath ?a id1 p1 ?t")
  have r1: "r1 = None" using u b1 by (cases r1) simp_all
  obtain r2 s2 where b2: "UpdatePatternPolicies_body env org policyPath ?a id2 p2 s1 = (r2, s2)"
    by (cases "UpdatePatternPolicies_body env org policyPath ?a id2 p2 s1")
  have r2: "r2 = None" and s2: "s2 = s'" using u b1 r1 b2 by (cases r2; simp)+
  from body_new_entry [of env org policyPath ?a id1 p1 ?t s1] b1 r1 t1 assms(5)
  obtain pe where pe: "getEntry s1 org k1 = Some pe" "Pattern pe = Some ?a" "hashOf env p1 = Inr (Hash pe)"
    by auto
  have "(org, k1) \<noteq> (org, exchange_GetId env id2)" using assms(6,7) by simp
  from body_other_entry [OF b2 this] pe(1) s2 have g: "getEntry s' org k1 = Some pe" by simp
  have v: "patternVars s' ?a = Some p2" using body_var [OF b2] s2 by simp
  then have "hashPattern env (Pattern pe) s' = hashOf env p2"
    using pe(2) by (simp add: hashPattern_var)
  with g pe v assms(8) show ?thesis by (auto simp: deref_var)
qed

theorem stale_pattern_pointer_witness:
  "hasPattern pm_fresh ''acme'' ''p1'' \<and> getEntry pm_fresh ''acme'' ''p1'' = None \<and>
   hasPattern pm_fresh ''acme'' ''p2'' \<and> getEntry pm_fresh ''acme'' ''p2'' = None \<and>
   hashOf demo_env 7 \<noteq> hashOf demo_env 9 \<and>
   UpdatePatternPolicies demo_env ''acme'' [(''acme/p1'', 7), (''acme/p2'', 9)] ''/policy/'' pm_fresh =
     (None, pm_after_pass) \<and>
   (\<exists>pe. getEntry pm_after_pass ''acme'' ''p1'' = Some pe \<and> hashOf demo_env 7 = Inr (Hash pe) \<and>
         deref (Pattern pe) pm_after_pass = Some 9 \<and>
         hashPattern demo_env (Pattern pe) pm_after_pass \<noteq> Inr (Hash pe))"
proof -
  have a: "hasPattern pm_fresh ''acme'' ''p1''" "getEntry pm_fresh ''acme'' ''p1'' = None"
    "hasPattern pm_fresh ''acme'' ''p2''" "getEntry pm_fresh ''acme'' ''p2'' = None"
    by code_simp+
  have g: "exchange_GetId demo_env ''acme/p1'' = ''p1''" "exchange_GetId demo_env ''acme/p2'' = ''p2''"
    by code_simp+
  have k: "''p1'' \<noteq> ''p2''" by simp
  have h: "hashOf demo_env 7 \<noteq> hashOf demo_env 9" by code_simp
  have f: "fst (UpdatePatternPolicies demo_env ''acme'' [(''acme/p1'', 7), (''acme/p2'', 9)] ''/policy/'' pm_fresh) = None"
    by code_simp
  have u: "UpdatePatternPolicies demo_env ''acme'' [(''acme/p1'', 7), (''acme/p2'', 9)] ''/policy/'' pm_fresh =
     (None, pm_after_pass)"
    using f by (simp add: prod_eq_iff pm_after_pass_def defined_two_def)
  from stale_pattern_pointer [OF a g k h u] a h u show ?thesis by blast
qed

subsection \<open>Deletions and creations that fail\<close>

lemma attempt_all_append:
  "attempt_all env (cs1 @ cs2) w =
     (fst (attempt_all env cs1 w) @ fst (attempt_all env cs2 (snd (attempt_all env cs1 w))),
      snd (attempt_all env cs2 (snd (attempt_all env cs1 w))))"
  by (induction cs1 arbitrary: w) (simp_all add: case_prod_beta Let_def)

lemma after_deletions_Nil: "after_deletions env [] (OrgPatterns s) s = s"
  by (simp add: after_deletions_def)

lemma after_deletions_twice:
  "after_deletions env cs2 m2 (after_deletions env cs1 m1 s) = after_deletions env (cs1 @ cs2) m2 s"
  by (simp add: after_deletions_def attempt_all_append)

lemma after_deletions_map:
  "(after_deletions env cs m s)\<lparr>OrgPatterns := m'\<rparr> = after_deletions env cs m' s"
  "OrgPatterns (after_deletions env cs m s) = m"
  by (simp_all add: after_deletions_def)

lemma map_entry_absent: "map_of xs k = None \<Longrightarrow> AList.map_entry k f xs = xs"
  by (induction xs) (auto split: if_splits)

lemma map_entry_fixed: "map_of xs k = Some v \<Longrightarrow> f v = v \<Longrightarrow> AList.map_entry k f xs = xs"
  by (induction xs) (auto split: if_splits)

lemma map_entry_cong_value:
  "(\<And>v. map_of xs k = Some v \<Longrightarrow> f v = g v) \<Longrightarrow> AList.map_entry k f xs = AList.map_entry k g xs"
  by (induction xs) (auto split: if_splits)

lemma map_entry_twice: "AList.map_entry k f (AList.map_entry k g xs) = AList.map_entry k (f \<circ> g) xs"
  by (induction xs) auto

lemma deletePattern_eq:
  "deletePattern env policyPath org pattern s =
     (None, after_deletions env [DeletePolicyFilesForPatternCall policyPath org pattern]
              (AList.map_entry org (AList.delete pattern) (OrgPatterns s)) s)"
proof -
  obtain r w1 where d: "DeletePolicyFilesForPattern env policyPath org pattern (world s) = (r, w1)"
    by (cases "DeletePolicyFilesForPattern env policyPath org pattern (world s)")
  have m: "(if hasOrg s org \<and> map_of (orgMapOf s org) pattern \<noteq> None
            then AList.map_entry org (AList.delete pattern) (OrgPatterns s) else OrgPatterns s)
           = AList.map_entry org (AList.delete pattern) (OrgPatterns s)"
  proof (cases "map_of (OrgPatterns s) org")
    case None
    then show ?thesis by (simp add: map_entry_absent hasOrg_def)
  next
    case (Some om)
    show ?thesis
    proof (cases "map_of om pattern")
      case None
      then have "AList.delete pattern om = om"
        by (intro AList.delete_id) (simp add: map_of_eq_None_iff)
      with Some show ?thesis by (simp add: map_entry_fixed)
    next
      case (Some v)
      with \<open>map_of (OrgPatterns s) org = Some om\<close> show ?thesis
        by (simp add: hasOrg_def orgMapOf_def)
    qed
  qed
  show ?thesis
    using d m
    by (cases r)
       (auto simp: deletePattern_def Let_def after_deletions_def deletion_result_def
          deletion_log_def hasOrg_def orgMapOf_def split: if_splits)
qed

lemma deleteOrg_eq:
  "deleteOrg env policyPath org s =
     (None, after_deletions env [DeletePolicyFilesForOrgCall policyPath org True]
              (AList.delete org (OrgPatterns s)) s)"
proof -
  obtain r w1 where d: "DeletePolicyFilesForOrg env policyPath org True (world s) = (r, w1)"
    by (cases "DeletePolicyFilesForOrg env policyPath org True (world s)")
  have m: "\<not> hasOrg s org \<Longrightarrow> AList.delete org (OrgPatterns s) = OrgPatterns s"
    by (intro AList.delete_id) (simp add: hasOrg_def map_of_eq_None_iff)
  show ?thesis
    using d m
    by (cases r)
       (auto simp: deleteOrg_def Let_def after_deletions_def deletion_result_def
          deletion_log_def hasOrg_def split: if_splits)
qed

lemma SetCurrentPatterns_patterns_eq:
  "\<exists>m. SetCurrentPatterns_patterns env policyPath newMap org ps s =
     (None, after_deletions env
        (map (DeletePolicyFilesForPatternCall policyPath org)
           (filter (\<lambda>pattern.
              map_of (case map_of newMap org of None \<Rightarrow> [] | Some m \<Rightarrow> m) pattern = None) ps))
        m s)"
proof (induction ps arbitrary: s)
  case Nil
  have "SetCurrentPatterns_patterns env policyPath newMap org [] s =
          (None, after_deletions env [] (OrgPatterns s) s)"
    by (simp add: after_deletions_Nil)
  then show ?case by auto
next
  case (Cons p ps)
  show ?case
  proof (cases "map_of (case map_of newMap org of None \<Rightarrow> [] | Some m \<Rightarrow> m) p = None")
    case True
    let ?s1 = "after_deletions env [DeletePolicyFilesForPatternCall policyPath org p]
                 (AList.map_entry org (AList.delete p) (OrgPatterns s)) s"
    from Cons.IH [of ?s1] obtain m where
      "SetCurrentPatterns_patterns env policyPath newMap org ps ?s1 =
         (None, after_deletions env
            (map (DeletePolicyFilesForPatternCall policyPath org)
               (filter (\<lambda>pattern.
                  map_of (case map_of newMap org of None \<Rightarrow> [] | Some m \<Rightarrow> m) pattern = None) ps))
            m ?s1)" by blast
    with True show ?thesis
      by (auto simp: deletePattern_eq after_deletions_twice)
  next
    case False
    with Cons.IH [of s] show ?thesis by auto
  qed
qed

lemma SetCurrentPatterns_orgs_eq:
  "\<exists>m. SetCurrentPatterns_orgs env policyPath newMap os s =
     (None, after_deletions env (SetCurrentPatterns_deletions policyPath newMap os) m s)"
proof (induction os arbitrary: s)
  case Nil
  have "SetCurrentPatterns_orgs env policyPath newMap [] s =
          (None, after_deletions env (SetCurrentPatterns_deletions policyPath newMap []) (OrgPatterns s) s)"
    by (simp add: after_deletions_Nil SetCurrentPatterns_deletions_def)
  then show ?case by auto
next
  case (Cons x os)
  obtain org orgMap where x: "x = (org, orgMap)" by (cases x)
  show ?case
  proof (cases "map_of newMap org = None")
    case True
    let ?s1 = "after_deletions env [DeletePolicyFilesForOrgCall policyPath org True]
                 (AList.delete org (OrgPatterns s)) s"
    from Cons.IH [of ?s1] obtain m where
      "SetCurrentPatterns_orgs env policyPath newMap os ?s1 =
         (None, after_deletions env (SetCurrentPatterns_deletions policyPath newMap os) m ?s1)"
      by blast
    with True x show ?thesis
      by (auto simp: deleteOrg_eq after_deletions_twice SetCurrentPatterns_deletions_def)
  next
    case False
    let ?cs = "map (DeletePolicyFilesForPatternCall policyPath org)
           (filter (\<lambda>pattern.
              map_of (case map_of newMap org of None \<Rightarrow> [] | Some m \<Rightarrow> m) pattern = None)
              (map fst orgMap))"
    from SetCurrentPatterns_patterns_eq [of env policyPath newMap org "map fst orgMap" s]
    obtain m1 where p:
      "SetCurrentPatterns_patterns env policyPath newMap org (map fst orgMap) s =
         (None, after_deletions env ?cs m1 s)" by blast
    from Cons.IH [of "after_deletions env ?cs m1 s"] obtain m where
      "SetCurrentPatterns_orgs env policyPath newMap os (after_deletions env ?cs m1 s) =
         (None, after_deletions env (SetCurrentPatterns_deletions policyPath newMap os) m
                  (after_deletions env ?cs m1 s))"
      by blast
    with False x p show ?thesis
      by (auto simp: after_deletions_twice SetCurrentPatterns_deletions_def)
  qed
qed

lemma SetCurrentPatterns_eq:
  "SetCurrentPatterns env servedPatterns policyPath s =
     (None,
      if OrgPatterns s = [] \<and> servedPatterns = [] then s
      else after_deletions env
             (SetCurrentPatterns_deletions policyPath
                (SetCurrentPatterns_served s servedPatterns []) (OrgPatterns s))
             (SetCurrentPatterns_served s servedPatterns []) s)"
proof -
  from SetCurrentPatterns_orgs_eq [of env policyPath "SetCurrentPatterns_served s servedPatterns []"
      "OrgPatterns s" s]
  obtain m where
    "SetCurrentPatterns_orgs env policyPath (SetCurrentPatterns_served s servedPatterns [])
       (OrgPatterns s) s =
     (None, after_deletions env
        (SetCurrentPatterns_deletions policyPath
           (SetCurrentPatterns_served s servedPatterns []) (OrgPatterns s)) m s)"
    by blast
  then show ?thesis
    by (simp add: SetCurrentPatterns_def Let_def after_deletions_map)
qed

lemma UpdatePatternPolicies_delete_eq:
  "UpdatePatternPolicies_delete env org dps policyPath ks s =
     (None, after_deletions env
        (map (DeletePolicyFilesForPatternCall policyPath org)
           (filter (\<lambda>pattern. \<not> UpdatePatternPolicies_found env pattern dps) ks))
        (AList.map_entry org
           (filter (\<lambda>(pattern, pe). pattern \<notin> set ks \<or> UpdatePatternPolicies_found env pattern dps))
           (OrgPatterns s)) s)"
proof -
  define keep :: "string list \<Rightarrow> org_map \<Rightarrow> org_map" where
    "keep ks = filter (\<lambda>(pattern, pe). pattern \<notin> set ks \<or> UpdatePatternPolicies_found env pattern dps)"
    for ks
  define gone where
    "gone ks = map (DeletePolicyFilesForPatternCall policyPath org)
       (filter (\<lambda>pattern. \<not> UpdatePatternPolicies_found env pattern dps) ks)" for ks
  have "UpdatePatternPolicies_delete env org dps policyPath ks s =
     (None, after_deletions env (gone ks) (AList.map_entry org (keep ks) (OrgPatterns s)) s)"
  proof (induction ks arbitrary: s)
    case Nil
    have "AList.map_entry org f xs = xs" if "\<And>v. f v = v"
      for xs :: "(string \<times> org_map) list" and f
      using that by (induction xs) auto
    moreover have "keep [] v = v" for v by (simp add: keep_def)
    ultimately have "AList.map_entry org (keep []) (OrgPatterns s) = OrgPatterns s"
      by blast
    then show ?case by (simp add: after_deletions_Nil gone_def)
  next
    case (Cons k ks)
    show ?case
    proof (cases "UpdatePatternPolicies_found env k dps")
      case True
      have "keep (k # ks) = keep ks"
        unfolding keep_def using True by (auto simp: fun_eq_iff intro!: filter_cong)
      moreover have "gone (k # ks) = gone ks" using True by (simp add: gone_def)
      moreover have "UpdatePatternPolicies_delete env org dps policyPath (k # ks) s =
          UpdatePatternPolicies_delete env org dps policyPath ks s" using True by simp
      ultimately show ?thesis using Cons.IH [of s] by simp
    next
      case False
      let ?c = "DeletePolicyFilesForPatternCall policyPath org k"
      let ?s1 = "after_deletions env [?c] (AList.map_entry org (AList.delete k) (OrgPatterns s)) s"
      have k: "keep ks \<circ> AList.delete k = keep (k # ks)"
        unfolding keep_def using False by (auto simp: fun_eq_iff AList.delete_eq intro!: filter_cong)
      have g: "gone (k # ks) = ?c # gone ks" using False by (simp add: gone_def)
      have "UpdatePatternPolicies_delete env org dps policyPath (k # ks) s =
          UpdatePatternPolicies_delete env org dps policyPath ks ?s1"
        using False by (simp add: deletePattern_eq)
      also have "\<dots> = (None, after_deletions env (gone ks)
          (AList.map_entry org (keep ks) (OrgPatterns ?s1)) ?s1)"
        by (rule Cons.IH)
      also have "\<dots> = (None, after_deletions env (gone (k # ks))
          (AList.map_entry org (keep (k # ks)) (OrgPatterns s)) s)"
        by (simp add: after_deletions_twice after_deletions_map map_entry_twice k g)
      finally show ?thesis .
    qed
  qed
  then show ?thesis by (simp add: keep_def gone_def)
qed

lemma UpdatePatternPolicies_eq:
  assumes "hasOrg s org" and "dps \<noteq> []"
  shows "UpdatePatternPolicies env org dps policyPath s =
     UpdatePatternPolicies_update env org policyPath (nextVar s) dps
       (update_start env org dps policyPath s)"
proof -
  have "AList.map_entry org
          (filter (\<lambda>(pattern, pe). pattern \<notin> set (map fst (orgMapOf s org)) \<or>
                      UpdatePatternPolicies_found env pattern dps)) (OrgPatterns s) =
        AList.map_entry org
          (filter (\<lambda>(pattern, pe). UpdatePatternPolicies_found env pattern dps)) (OrgPatterns s)"
    by (rule map_entry_cong_value) (force simp: orgMapOf_def intro!: filter_cong)
  then show ?thesis
    using assms
    by (simp add: UpdatePatternPolicies_def UpdatePatternPolicies_delete_eq update_start_def
        UpdatePatternPolicies_deletions_def after_deletions_def)
qed

lemma UpdatePatternPolicies_empty_eq:
  "hasOrg s org \<Longrightarrow>
   UpdatePatternPolicies env org [] policyPath s =
     (None, after_deletions env [DeletePolicyFilesForOrgCall policyPath org True]
              (AList.delete org (OrgPatterns s)) s)"
  by (simp add: UpdatePatternPolicies_def deleteOrg_eq)

lemma update_append:
  "UpdatePatternPolicies_update env org path a (pre @ post) s =
     (case UpdatePatternPolicies_update env org path a pre s of
        (Some e, s1) \<Rightarrow> (Some e, s1)
      | (None, s1) \<Rightarrow> UpdatePatternPolicies_update env org path a post s1)"
  by (induction pre arbitrary: s) (auto split: prod.splits option.splits)

lemma reach_pattern:
  assumes "hasOrg s org" and "dps = pre @ (pid, p) # rest"
      and "UpdatePatternPolicies_update env org path (nextVar s) pre (update_start env org dps path s) = (None, t)"
  shows "UpdatePatternPolicies env org dps path s =
     (case UpdatePatternPolicies_body env org path (nextVar s) pid p t of
        (Some e, t1) \<Rightarrow> (Some e, t1)
      | (None, t1) \<Rightarrow> UpdatePatternPolicies_update env org path (nextVar s) rest t1)"
proof -
  have "dps \<noteq> []" using assms(2) by simp
  from UpdatePatternPolicies_eq [OF assms(1) this, of env path] assms(2,3)
  show ?thesis by (simp add: update_append)
qed

lemma body_new_create_failure:
  assumes "hasPattern t org (exchange_GetId env pid)"
      and "getEntry t org (exchange_GetId env pid) = None"
      and "NewPatternEntry env (Some a) (t\<lparr>patternVars := (patternVars t)(a \<mapsto> p)\<rparr>) = (Inr newPE, t1)"
      and "createPolicyFiles env newPE pid (Some a) path org
             (setEntry org (exchange_GetId env pid) (Some newPE) t1) = (Some e, pe1, t3)"
  shows "UpdatePatternPolicies_body env org path a pid p t =
           (Some (UnableToCreateFiles e), setEntry org (exchange_GetId env pid) (Some pe1) t3)"
  using assms by (simp add: UpdatePatternPolicies_body_def)

lemma body_changed_create_failure:
  assumes "hasPattern t org (exchange_GetId env pid)"
      and "getEntry t org (exchange_GetId env pid) = Some pe"
      and "hashOf env p = Inr newHash" and "Hash pe \<noteq> newHash"
      and "DeleteAllPolicyFiles env pe path org (t\<lparr>patternVars := (patternVars t)(a \<mapsto> p)\<rparr>) = (None, t1)"
      and "UpdateEntry env pe (Some a) newHash t1 = (pe1, t2)"
      and "createPolicyFiles env pe1 pid (Some a) path org
             (setEntry org (exchange_GetId env pid) (Some pe1) t2) = (Some e, pe2, t4)"
  shows "UpdatePatternPolicies_body env org path a pid p t =
           (Some (UnableToCreateFiles e), setEntry org (exchange_GetId env pid) (Some pe2) t4)"
  using assms hashPattern_var [of "t\<lparr>patternVars := (patternVars t)(a \<mapsto> p)\<rparr>" a p env]
  by (simp add: UpdatePatternPolicies_body_def)

text \<open>
  C4, as the code has it. A file-system error raised while deleting the files of an org
  or of a pattern is logged and the pass continues. SetCurrentPatterns returns nil, and
  unless it had nothing to do it leaves the state that attempting every deletion it is to
  make leaves, each failure logged, with the new map installed. UpdatePatternPolicies on a
  known org with no defined pattern returns nil after attempting the deletion of the org's
  files, the failure logged, the org removed; with defined patterns it attempts the
  deletion of every pattern that is no longer defined, each failure logged and the pattern
  removed, and then runs its second loop from that state, whose result it returns. An error
  it returns is "org not found", "unable to create pattern entry", "unable to create
  policy files", "unable to hash pattern" or "unable to delete policy files". The last is
  returned at once, whichever patterns were visited before without error, when the pass
  reaches a pattern whose entry stores another hash and deleting the files of that entry
  fails.
\<close>

theorem deletions_logged_pass_continues:
  "SetCurrentPatterns env servedPatterns policyPath s =
     (None,
      if OrgPatterns s = [] \<and> servedPatterns = [] then s
      else after_deletions env
             (SetCurrentPatterns_deletions policyPath
                (SetCurrentPatterns_served s servedPatterns []) (OrgPatterns s))
             (SetCurrentPatterns_served s servedPatterns []) s) \<and>
   (hasOrg s org \<longrightarrow>
      UpdatePatternPolicies env org [] policyPath s =
        (None, after_deletions env [DeletePolicyFilesForOrgCall policyPath org True]
                 (AList.delete org (OrgPatterns s)) s)) \<and>
   (hasOrg s org \<and> definedPatterns \<noteq> [] \<longrightarrow>
      UpdatePatternPolicies env org definedPatterns policyPath s =
        UpdatePatternPolicies_update env org policyPath (nextVar s) definedPatterns
          (update_start env org definedPatterns policyPath s)) \<and>
   (UpdatePatternPolicies env org definedPatterns policyPath s = (Some e, s') \<longrightarrow>
      e = OrgNotFound org \<or>
      (\<exists>x. e = UnableToCreateEntry x \<or> e = UnableToCreateFiles x \<or> e = UnableToHash x \<or>
           e = UnableToDeleteFiles x)) \<and>
   (hasOrg s org \<and> definedPatterns = visited @ (patternId, p) # rest \<and>
    UpdatePatternPolicies_update env org policyPath (nextVar s) visited
      (update_start env org definedPatterns policyPath s) = (None, t) \<and>
    hasPattern t org (exchange_GetId env patternId) \<and>
    getEntry t org (exchange_GetId env patternId) = Some pe \<and>
    hashOf env p = Inr newHash \<and> Hash pe \<noteq> newHash \<and>
    DeleteAllPolicyFiles env pe policyPath org
      (t\<lparr>patternVars := (patternVars t)(nextVar s \<mapsto> p)\<rparr>) = (Some err, td) \<longrightarrow>
      UpdatePatternPolicies env org definedPatterns policyPath s =
        (Some (UnableToDeleteFiles err), td))"
proof (intro conjI impI)
  show "SetCurrentPatterns env servedPatterns policyPath s =
     (None,
      if OrgPatterns s = [] \<and> servedPatterns = [] then s
      else after_deletions env
             (SetCurrentPatterns_deletions policyPath
                (SetCurrentPatterns_served s servedPatterns []) (OrgPatterns s))
             (SetCurrentPatterns_served s servedPatterns []) s)"
    by (rule SetCurrentPatterns_eq)
next
  assume "hasOrg s org"
  then show "UpdatePatternPolicies env org [] policyPath s =
        (None, after_deletions env [DeletePolicyFilesForOrgCall policyPath org True]
                 (AList.delete org (OrgPatterns s)) s)"
    by (rule UpdatePatternPolicies_empty_eq)
next
  assume "hasOrg s org \<and> definedPatterns \<noteq> []"
  then show "UpdatePatternPolicies env org definedPatterns policyPath s =
        UpdatePatternPolicies_update env org policyPath (nextVar s) definedPatterns
          (update_start env org definedPatterns policyPath s)"
    using UpdatePatternPolicies_eq [of s org definedPatterns env policyPath] by simp
next
  assume "UpdatePatternPolicies env org definedPatterns policyPath s = (Some e, s')"
  then show "e = OrgNotFound org \<or>
      (\<exists>x. e = UnableToCreateEntry x \<or> e = UnableToCreateFiles x \<or> e = UnableToHash x \<or>
           e = UnableToDeleteFiles x)"
    by (rule UpdatePatternPolicies_error_kind)
next
  assume a: "hasOrg s org \<and> definedPatterns = visited @ (patternId, p) # rest \<and>
    UpdatePatternPolicies_update env org policyPath (nextVar s) visited
      (update_start env org definedPatterns policyPath s) = (None, t) \<and>
    hasPattern t org (exchange_GetId env patternId) \<and>
    getEntry t org (exchange_GetId env patternId) = Some pe \<and>
    hashOf env p = Inr newHash \<and> Hash pe \<noteq> newHash \<and>
    DeleteAllPolicyFiles env pe policyPath org
      (t\<lparr>patternVars := (patternVars t)(nextVar s \<mapsto> p)\<rparr>) = (Some err, td)"
  then have r: "UpdatePatternPolicies env org definedPatterns policyPath s =
     (case UpdatePatternPolicies_body env org policyPath (nextVar s) patternId p t of
        (Some e, td) \<Rightarrow> (Some e, td)
      | (None, td) \<Rightarrow> UpdatePatternPolicies_update env org policyPath (nextVar s) rest td)"
    using reach_pattern [of s org definedPatterns visited patternId p rest env policyPath t] by blast
  from a have "UpdatePatternPolicies_body env org policyPath (nextVar s) patternId p t =
      (Some (UnableToDeleteFiles err), td)"
    by (intro body_delete_failure [where pe = pe and newHash = newHash]) simp_all
  with r show "UpdatePatternPolicies env org definedPatterns policyPath s =
        (Some (UnableToDeleteFiles err), td)" by simp
qed

theorem deletions_logged_pass_continues_witness:
  "fst (SetCurrentPatterns demo_env_no_delete
          [(''k'', \<lparr>served_Org = ''acme'', served_Pattern = ''p2''\<rparr>)] ''/policy/'' pm_p1) = None \<and>
   OrgPatterns (snd (SetCurrentPatterns demo_env_no_delete
          [(''k'', \<lparr>served_Org = ''acme'', served_Pattern = ''p2''\<rparr>)] ''/policy/'' pm_p1)) =
     [(''acme'', [(''p2'', None)])] \<and>
   fsCalls (snd (SetCurrentPatterns demo_env_no_delete
          [(''k'', \<lparr>served_Org = ''acme'', served_Pattern = ''p2''\<rparr>)] ''/policy/'' pm_p1)) =
     [DeletePolicyFilesForPatternCall ''/policy/'' ''acme'' ''p1''] \<and>
   errorLog (snd (SetCurrentPatterns demo_env_no_delete
          [(''k'', \<lparr>served_Org = ''acme'', served_Pattern = ''p2''\<rparr>)] ''/policy/'' pm_p1)) =
     [ErrorDeletingPattern ''acme'' ''p1'' (External ''permission denied'')] \<and>
   hasOrg pm_p1 ''acme'' \<and>
   fst (UpdatePatternPolicies demo_env_no_delete ''acme'' [(''acme/p1'', 8)] ''/policy/'' pm_p1) =
     Some (UnableToDeleteFiles (External ''permission denied''))"
proof -
  let ?env = demo_env_no_delete
  let ?served = "[(''k'', \<lparr>served_Org = ''acme'', served_Pattern = ''p2''\<rparr>)]"
  let ?dps = "[(''acme/p1'', 8::nat)]"
  let ?new = "SetCurrentPatterns_served pm_p1 ?served []"
  let ?after = "after_deletions ?env (SetCurrentPatterns_deletions ''/policy/'' ?new (OrgPatterns pm_p1))
                  ?new pm_p1"
  let ?t = "update_start ?env ''acme'' ?dps ''/policy/'' pm_p1"
  let ?pe = "\<lparr>Pattern = Some 0, Updated = 1400000000, Hash = [7],
              PolicyFileNames = [''/policy/acme/p1'']\<rparr>"
  let ?tz = "?t\<lparr>patternVars := (patternVars ?t)(nextVar pm_p1 \<mapsto> 8)\<rparr>"
  let ?d = "DeleteAllPolicyFiles ?env ?pe ''/policy/'' ''acme'' ?tz"
  note inst = deletions_logged_pass_continues [where env = "?env" and s = pm_p1 and org = "''acme''"
      and servedPatterns = "?served" and policyPath = "''/policy/''" and definedPatterns = "?dps"
      and visited = "[]" and patternId = "''acme/p1''" and p = 8 and rest = "[]" and t = ?t
      and pe = ?pe and newHash = "[8]" and err = "External ''permission denied''" and td = "snd ?d"]
  have ne: "\<not> (OrgPatterns pm_p1 = [] \<and> ?served = [])" by simp
  have s: "SetCurrentPatterns ?env ?served ''/policy/'' pm_p1 = (None, ?after)"
    using inst ne by simp
  have a1: "OrgPatterns ?after = [(''acme'', [(''p2'', None)])]" by code_simp
  have a2: "fsCalls ?after = [DeletePolicyFilesForPatternCall ''/policy/'' ''acme'' ''p1'']"
    by code_simp
  have a3: "errorLog ?after = [ErrorDeletingPattern ''acme'' ''p1'' (External ''permission denied'')]"
    by code_simp
  have h1: "hasOrg pm_p1 ''acme''" by code_simp
  have h2: "?dps = [] @ (''acme/p1'', 8) # []" by simp
  have h3: "UpdatePatternPolicies_update ?env ''acme'' ''/policy/'' (nextVar pm_p1) [] ?t = (None, ?t)"
    by simp
  have h4: "hasPattern ?t ''acme'' (exchange_GetId ?env ''acme/p1'')" by code_simp
  have h5: "getEntry ?t ''acme'' (exchange_GetId ?env ''acme/p1'') = Some ?pe" by code_simp
  have h6: "hashOf ?env 8 = Inr [8]" by code_simp
  have h7: "Hash ?pe \<noteq> [8]" by simp
  have "fst ?d = Some (External ''permission denied'')" by code_simp
  then have h8: "?d = (Some (External ''permission denied''), snd ?d)" by (simp add: prod_eq_iff)
  have "UpdatePatternPolicies ?env ''acme'' ?dps ''/policy/'' pm_p1 =
          (Some (UnableToDeleteFiles (External ''permission denied'')), snd ?d)"
    using inst h1 h2 h3 h4 h5 h6 h7 h8 by blast
  with s a1 a2 a3 h1 show ?thesis by simp
qed

text \<open>
  The entry of \<open>p1\<close> holds the hash of pattern 7 and one policy file; the exchange now
  defines pattern 8 and the file system refuses to delete: UpdatePatternPolicies returns
  the deletion error.
\<close>

theorem deletion_error_returned:
  "fst (UpdatePatternPolicies demo_env_no_delete ''acme'' [(''acme/p1'', 8)] ''/policy/'' pm_p1) =
     Some (UnableToDeleteFiles (External ''permission denied''))"
  by code_simp

text \<open>
  C5, as the code has it. The pass has reached a pattern that the manager serves, the
  patterns visited before having raised no error. If the pattern has no entry yet, an entry
  is made for it and creating its policy files fails, then UpdatePatternPolicies returns
  "unable to create policy files" and the manager holds the new entry, not nil: its Hash is
  the hash of the defined pattern and its Pattern points to a variable holding that
  pattern. If the pattern has an entry that stores another hash, the files of the entry are
  deleted, the entry is updated and creating the policy files fails, then
  UpdatePatternPolicies returns "unable to create policy files" and the manager holds the
  updated entry: its Hash is the new hash, which is not the hash stored before, and its
  Pattern points to a variable holding the newly defined pattern.
\<close>

theorem creation_failure_leaves_update:
  assumes "hasOrg s org" and "definedPatterns = visited @ (patternId, p) # rest"
      and "UpdatePatternPolicies_update env org policyPath (nextVar s) visited
             (update_start env org definedPatterns policyPath s) = (None, t)"
      and "hasPattern t org (exchange_GetId env patternId)"
  shows
    "(getEntry t org (exchange_GetId env patternId) = None \<and>
      NewPatternEntry env (Some (nextVar s)) (t\<lparr>patternVars := (patternVars t)(nextVar s \<mapsto> p)\<rparr>)
        = (Inr newPE, tn) \<and>
      createPolicyFiles env newPE patternId (Some (nextVar s)) policyPath org
        (setEntry org (exchange_GetId env patternId) (Some newPE) tn) = (Some e, created, tc) \<longrightarrow>
        UpdatePatternPolicies env org definedPatterns policyPath s =
          (Some (UnableToCreateFiles e), setEntry org (exchange_GetId env patternId) (Some created) tc) \<and>
        getEntry (setEntry org (exchange_GetId env patternId) (Some created) tc) org
          (exchange_GetId env patternId) = Some created \<and>
        hashOf env p = Inr (Hash created) \<and>
        deref (Pattern created) (setEntry org (exchange_GetId env patternId) (Some created) tc) = Some p) \<and>
     (getEntry t org (exchange_GetId env patternId) = Some pe \<and>
      hashOf env p = Inr newHash \<and> Hash pe \<noteq> newHash \<and>
      DeleteAllPolicyFiles env pe policyPath org
        (t\<lparr>patternVars := (patternVars t)(nextVar s \<mapsto> p)\<rparr>) = (None, td) \<and>
      UpdateEntry env pe (Some (nextVar s)) newHash td = (updated, tu) \<and>
      createPolicyFiles env updated patternId (Some (nextVar s)) policyPath org
        (setEntry org (exchange_GetId env patternId) (Some updated) tu) = (Some e', kept, tf) \<longrightarrow>
        UpdatePatternPolicies env org definedPatterns policyPath s =
          (Some (UnableToCreateFiles e'), setEntry org (exchange_GetId env patternId) (Some kept) tf) \<and>
        getEntry (setEntry org (exchange_GetId env patternId) (Some kept) tf) org
          (exchange_GetId env patternId) = Some kept \<and>
        Hash kept = newHash \<and> Hash kept \<noteq> Hash pe \<and>
        deref (Pattern kept) (setEntry org (exchange_GetId env patternId) (Some kept) tf) = Some p)"
proof (intro conjI impI)
  let ?k = "exchange_GetId env patternId"
  let ?a = "nextVar s"
  let ?tz = "t\<lparr>patternVars := (patternVars t)(?a \<mapsto> p)\<rparr>"
  note r = reach_pattern [OF assms(1-3)]
  {
    assume h: "getEntry t org ?k = None \<and>
      NewPatternEntry env (Some ?a) ?tz = (Inr newPE, tn) \<and>
      createPolicyFiles env newPE patternId (Some ?a) policyPath org
        (setEntry org ?k (Some newPE) tn) = (Some e, created, tc)"
    then have n: "NewPatternEntry env (Some ?a) ?tz = (Inr newPE, tn)"
      and c: "createPolicyFiles env newPE patternId (Some ?a) policyPath org
        (setEntry org ?k (Some newPE) tn) = (Some e, created, tc)" by simp_all
    have b: "UpdatePatternPolicies_body env org policyPath ?a patternId p t =
        (Some (UnableToCreateFiles e), setEntry org ?k (Some created) tc)"
      using assms(4) h by (intro body_new_create_failure [where newPE = newPE and ?t1.0 = tn]) simp_all
    with r show "UpdatePatternPolicies env org definedPatterns policyPath s =
          (Some (UnableToCreateFiles e), setEntry org ?k (Some created) tc)" by simp
    note nf = NewPatternEntry_frame [OF n] NewPatternEntry_Inr [OF n]
    note cf = createPolicyFiles_frame [OF c]
    have ho: "hasOrg tc org"
      using assms(4) nf cf same_map [of tn ?tz] same_map [of tc "setEntry org ?k (Some newPE) tn"]
      by (simp add: hasPattern_def)
    then show "getEntry (setEntry org ?k (Some created) tc) org ?k = Some created"
      by (simp add: getEntry_setEntry_same)
    show "hashOf env p = Inr (Hash created)"
      using nf cf hashPattern_var [of ?tz ?a p env] by simp
    have "Pattern created = Some ?a" using nf cf by simp
    moreover have "patternVars (setEntry org ?k (Some created) tc) ?a = Some p"
      using nf cf by (simp add: setEntry_def)
    ultimately show "deref (Pattern created) (setEntry org ?k (Some created) tc) = Some p"
      by (simp add: deref_var)
  }
  {
    assume h: "getEntry t org ?k = Some pe \<and>
      hashOf env p = Inr newHash \<and> Hash pe \<noteq> newHash \<and>
      DeleteAllPolicyFiles env pe policyPath org ?tz = (None, td) \<and>
      UpdateEntry env pe (Some ?a) newHash td = (updated, tu) \<and>
      createPolicyFiles env updated patternId (Some ?a) policyPath org
        (setEntry org ?k (Some updated) tu) = (Some e', kept, tf)"
    then have d: "DeleteAllPolicyFiles env pe policyPath org ?tz = (None, td)"
      and u: "UpdateEntry env pe (Some ?a) newHash td = (updated, tu)"
      and c: "createPolicyFiles env updated patternId (Some ?a) policyPath org
        (setEntry org ?k (Some updated) tu) = (Some e', kept, tf)" by simp_all
    have b: "UpdatePatternPolicies_body env org policyPath ?a patternId p t =
        (Some (UnableToCreateFiles e'), setEntry org ?k (Some kept) tf)"
      using assms(4) h
      by (intro body_changed_create_failure [where pe = pe and newHash = newHash and ?t1.0 = td
            and ?pe1.0 = updated and ?t2.0 = tu]) simp_all
    with r show "UpdatePatternPolicies env org definedPatterns policyPath s =
          (Some (UnableToCreateFiles e'), setEntry org ?k (Some kept) tf)" by simp
    note df = DeleteAllPolicyFiles_frame [OF d]
    note uf = UpdateEntry_frame [OF u]
    note cf = createPolicyFiles_frame [OF c]
    have "OrgPatterns tu = OrgPatterns t" using df uf by simp
    then have "hasOrg tu org" using assms(4) same_map [of tu t] by (simp add: hasPattern_def)
    then have ho: "hasOrg tf org"
      using cf same_map [of tf "setEntry org ?k (Some updated) tu"] by simp
    then show "getEntry (setEntry org ?k (Some kept) tf) org ?k = Some kept"
      by (simp add: getEntry_setEntry_same)
    show hh: "Hash kept = newHash" using uf cf by simp
    show "Hash kept \<noteq> Hash pe" using hh h by auto
    have "Pattern kept = Some ?a" using uf cf by simp
    moreover have "patternVars (setEntry org ?k (Some kept) tf) ?a = Some p"
      using df uf cf by (simp add: setEntry_def)
    ultimately show "deref (Pattern kept) (setEntry org ?k (Some kept) tf) = Some p"
      by (simp add: deref_var)
  }
qed

theorem creation_failure_leaves_update_witness:
  "fst (UpdatePatternPolicies demo_env_no_create ''acme'' [(''acme/p1'', 7)] ''/policy/'' pm_fresh) =
     Some (UnableToCreateFiles (ErrorCreatingFile (External ''disk full''))) \<and>
   getEntry pm_fresh ''acme'' ''p1'' = None \<and>
   getEntry (snd (UpdatePatternPolicies demo_env_no_create ''acme'' [(''acme/p1'', 7)] ''/policy/'' pm_fresh))
     ''acme'' ''p1'' =
     Some \<lparr>Pattern = Some 0, Updated = 1500000000, Hash = [7], PolicyFileNames = []\<rparr> \<and>
   fst (UpdatePatternPolicies demo_env_no_create ''acme'' [(''acme/p1'', 8)] ''/policy/'' pm_p1) =
     Some (UnableToCreateFiles (ErrorCreatingFile (External ''disk full''))) \<and>
   getEntry (snd (UpdatePatternPolicies demo_env_no_create ''acme'' [(''acme/p1'', 8)] ''/policy/'' pm_p1))
     ''acme'' ''p1'' =
     Some \<lparr>Pattern = Some 1, Updated = 1500000000, Hash = [8], PolicyFileNames = []\<rparr>"
proof -
  let ?env = demo_env_no_create
  let ?e = "ErrorCreatingFile (External ''disk full'')"
  have k: "exchange_GetId ?env ''acme/p1'' = ''p1''" by code_simp
  \<comment> \<open>a pattern with no entry yet\<close>
  let ?dpsN = "[(''acme/p1'', 7::nat)]"
  let ?tN = "update_start ?env ''acme'' ?dpsN ''/policy/'' pm_fresh"
  let ?tNz = "?tN\<lparr>patternVars := (patternVars ?tN)(nextVar pm_fresh \<mapsto> 7)\<rparr>"
  let ?newPE = "\<lparr>Pattern = Some 0, Updated = 1500000000, Hash = [7], PolicyFileNames = []\<rparr>"
  let ?n = "NewPatternEntry ?env (Some (nextVar pm_fresh)) ?tNz"
  let ?cN = "createPolicyFiles ?env ?newPE ''acme/p1'' (Some (nextVar pm_fresh)) ''/policy/'' ''acme''
               (setEntry ''acme'' (exchange_GetId ?env ''acme/p1'') (Some ?newPE) (snd ?n))"
  have n1: "hasOrg pm_fresh ''acme''" by code_simp
  have n2: "?dpsN = [] @ (''acme/p1'', 7) # []" by simp
  have n3: "UpdatePatternPolicies_update ?env ''acme'' ''/policy/'' (nextVar pm_fresh) [] ?tN = (None, ?tN)"
    by simp
  have n4: "hasPattern ?tN ''acme'' (exchange_GetId ?env ''acme/p1'')" by code_simp
  have n5: "getEntry ?tN ''acme'' (exchange_GetId ?env ''acme/p1'') = None" by code_simp
  have "fst ?n = Inr ?newPE" by code_simp
  then have n6: "?n = (Inr ?newPE, snd ?n)" by (simp add: prod_eq_iff)
  have "fst ?cN = Some ?e" "fst (snd ?cN) = ?newPE" by code_simp+
  then have n7: "?cN = (Some ?e, ?newPE, snd (snd ?cN))" by (simp add: prod_eq_iff)
  note thmN = creation_failure_leaves_update [where env = "?env" and s = pm_fresh and org = "''acme''"
      and policyPath = "''/policy/''" and definedPatterns = "?dpsN" and visited = "[]"
      and patternId = "''acme/p1''" and p = 7 and rest = "[]" and t = ?tN,
      OF n1 n2 n3 n4, THEN conjunct1, rule_format,
      where newPE = ?newPE and tn = "snd ?n" and e = ?e and created = ?newPE and tc = "snd (snd ?cN)"]
  from thmN n5 n6 n7 have rN:
    "UpdatePatternPolicies ?env ''acme'' ?dpsN ''/policy/'' pm_fresh =
       (Some (UnableToCreateFiles ?e),
        setEntry ''acme'' (exchange_GetId ?env ''acme/p1'') (Some ?newPE) (snd (snd ?cN)))"
    and gN: "getEntry (setEntry ''acme'' (exchange_GetId ?env ''acme/p1'') (Some ?newPE) (snd (snd ?cN)))
       ''acme'' (exchange_GetId ?env ''acme/p1'') = Some ?newPE"
    by blast+
  have g0: "getEntry pm_fresh ''acme'' ''p1'' = None" by code_simp
  \<comment> \<open>a pattern whose entry holds another hash\<close>
  let ?dpsC = "[(''acme/p1'', 8::nat)]"
  let ?tC = "update_start ?env ''acme'' ?dpsC ''/policy/'' pm_p1"
  let ?tCz = "?tC\<lparr>patternVars := (patternVars ?tC)(nextVar pm_p1 \<mapsto> 8)\<rparr>"
  let ?pe = "\<lparr>Pattern = Some 0, Updated = 1400000000, Hash = [7],
              PolicyFileNames = [''/policy/acme/p1'']\<rparr>"
  let ?upd = "\<lparr>Pattern = Some 1, Updated = 1500000000, Hash = [8], PolicyFileNames = []\<rparr>"
  let ?d = "DeleteAllPolicyFiles ?env ?pe ''/policy/'' ''acme'' ?tCz"
  let ?u = "UpdateEntry ?env ?pe (Some (nextVar pm_p1)) [8] (snd ?d)"
  let ?cC = "createPolicyFiles ?env ?upd ''acme/p1'' (Some (nextVar pm_p1)) ''/policy/'' ''acme''
               (setEntry ''acme'' (exchange_GetId ?env ''acme/p1'') (Some ?upd) (snd ?u))"
  have c1: "hasOrg pm_p1 ''acme''" by code_simp
  have c2: "?dpsC = [] @ (''acme/p1'', 8) # []" by simp
  have c3: "UpdatePatternPolicies_update ?env ''acme'' ''/policy/'' (nextVar pm_p1) [] ?tC = (None, ?tC)"
    by simp
  have c4: "hasPattern ?tC ''acme'' (exchange_GetId ?env ''acme/p1'')" by code_simp
  have c5: "getEntry ?tC ''acme'' (exchange_GetId ?env ''acme/p1'') = Some ?pe" by code_simp
  have c6: "hashOf ?env 8 = Inr [8]" by code_simp
  have c7: "Hash ?pe \<noteq> [8]" by simp
  have "fst ?d = None" by code_simp
  then have c8: "?d = (None, snd ?d)" by (simp add: prod_eq_iff)
  have "fst ?u = ?upd" by code_simp
  then have c9: "?u = (?upd, snd ?u)" by (simp add: prod_eq_iff)
  have "fst ?cC = Some ?e" "fst (snd ?cC) = ?upd" by code_simp+
  then have c10: "?cC = (Some ?e, ?upd, snd (snd ?cC))" by (simp add: prod_eq_iff)
  note thmC = creation_failure_leaves_update [where env = "?env" and s = pm_p1 and org = "''acme''"
      and policyPath = "''/policy/''" and definedPatterns = "?dpsC" and visited = "[]"
      and patternId = "''acme/p1''" and p = 8 and rest = "[]" and t = ?tC,
      OF c1 c2 c3 c4, THEN conjunct2, rule_format,
      where pe = ?pe and newHash = "[8]" and td = "snd ?d" and updated = ?upd and tu = "snd ?u"
        and e' = ?e and kept = ?upd and tf = "snd (snd ?cC)"]
  from thmC c5 c6 c7 c8 c9 c10 have rC:
    "UpdatePatternPolicies ?env ''acme'' ?dpsC ''/policy/'' pm_p1 =
       (Some (UnableToCreateFiles ?e),
        setEntry ''acme'' (exchange_GetId ?env ''acme/p1'') (Some ?upd) (snd (snd ?cC)))"
    and gC: "getEntry (setEntry ''acme'' (exchange_GetId ?env ''acme/p1'') (Some ?upd) (snd (snd ?cC)))
       ''acme'' (exchange_GetId ?env ''acme/p1'') = Some ?upd"
    by blast+
  from rN gN g0 rC gC k show ?thesis by simp
qed

text \<open>
  The entry of \<open>p1\<close> holds pattern 7, its hash and one policy file; the exchange now
  defines pattern 8 and the file system refuses to create: UpdatePatternPolicies returns
  the creation error, and the entry has a new Pattern, Hash and Updated and no file names.
\<close>

theorem creation_failure_entry_changed:
  "fst (UpdatePatternPolicies demo_env_no_create ''acme'' [(''acme/p1'', 8)] ''/policy/'' pm_p1) =
     Some (UnableToCreateFiles (ErrorCreatingFile (External ''disk full''))) \<and>
   getEntry pm_p1 ''acme'' ''p1'' =
     Some \<lparr>Pattern = Some 0, Updated = 1400000000, Hash = [7],
           PolicyFileNames = [''/policy/acme/p1'']\<rparr> \<and>
   getEntry (snd (UpdatePatternPolicies demo_env_no_create ''acme'' [(''acme/p1'', 8)] ''/policy/'' pm_p1))
       ''acme'' ''p1'' =
     Some \<lparr>Pattern = Some 1, Updated = 1500000000, Hash = [8], PolicyFileNames = []\<rparr>"
  by code_simp

end
